theory Spec2Isabelle
  imports Complex_Main "HOL-Library.AList"
begin

section \<open>The Python runtime the decoder relies on\<close>

text \<open>
  Exceptions are values: a function that may raise returns \<open>exn + 'a\<close>, with \<open>Inl\<close> the
  exception. Only the exception classes that the modelled code can meet are listed;
  \<open>OSError\<close> carries its \<open>errno\<close>.
\<close>

datatype exn =
    ValueError
  | TypeError
  | ZeroDivisionError
  | OverflowError
  | UnicodeDecodeError
  | OSError int
  | MqttError

text \<open>
  A text is a \<open>string\<close>, read as the UTF-8 bytes of the Python \<open>str\<close>. Every character
  the decoder looks for (colon, comma, double quote, digits, sign, ASCII letters and ASCII
  white space) is a single byte that never occurs inside a multi-byte sequence. The
  operations below are CPython's on ASCII text. On other text CPython knows further
  white space, digits, line boundaries and letters with an ASCII upper case, which are
  not modelled; what is stated about every line below is stated about ASCII lines.
\<close>

definition ascii :: "string \<Rightarrow> bool" where
  \<comment> \<open>\<open>s.isascii()\<close>\<close>
  "ascii s \<longleftrightarrow> (\<forall>c\<in>set s. of_char c < (128::nat))"

definition dquote :: char where
  "dquote = CHR 0x22"

definition strip_chars :: "char list \<Rightarrow> string \<Rightarrow> string" where
  \<comment> \<open>\<open>s.strip(chars)\<close>\<close>
  "strip_chars chars s =
     rev (dropWhile (\<lambda>c. c \<in> set chars) (rev (dropWhile (\<lambda>c. c \<in> set chars) s)))"

definition rstrip_chars :: "char list \<Rightarrow> string \<Rightarrow> string" where
  \<comment> \<open>\<open>s.rstrip(chars)\<close>\<close>
  "rstrip_chars chars s = rev (dropWhile (\<lambda>c. c \<in> set chars) (rev s))"

definition str_whitespace :: "char list" where
  \<comment> \<open>the ASCII characters for which \<open>str.isspace\<close> holds\<close>
  "str_whitespace =
     [CHR 0x09, CHR 0x0A, CHR 0x0B, CHR 0x0C, CHR 0x0D,
      CHR 0x1C, CHR 0x1D, CHR 0x1E, CHR 0x1F, CHR 0x20]"

definition strip :: "string \<Rightarrow> string" where
  \<comment> \<open>\<open>s.strip()\<close>\<close>
  "strip s = strip_chars str_whitespace s"

definition upper_char :: "char \<Rightarrow> char" where
  "upper_char c =
     (case map_of (zip ''abcdefghijklmnopqrstuvwxyz'' ''ABCDEFGHIJKLMNOPQRSTUVWXYZ'') c of
        Some u \<Rightarrow> u
      | None \<Rightarrow> c)"

definition upper :: "string \<Rightarrow> string" where
  \<comment> \<open>\<open>s.upper()\<close>\<close>
  "upper s = map upper_char s"

fun split_on :: "char \<Rightarrow> string \<Rightarrow> string list" where
  \<comment> \<open>\<open>s.split(sep)\<close> for a separator of one character; the result is never empty\<close>
  "split_on sep [] = [[]]"
| "split_on sep (c # cs) =
     (if c = sep then [] # split_on sep cs
      else (case split_on sep cs of
              [] \<Rightarrow> [[c]]
            | w # ws \<Rightarrow> (c # w) # ws))"

definition split1_first :: "char \<Rightarrow> string \<Rightarrow> string" where
  \<comment> \<open>\<open>s.split(sep, maxsplit=1)[0]\<close>\<close>
  "split1_first sep s = takeWhile (\<lambda>c. c \<noteq> sep) s"

definition split1_last :: "char \<Rightarrow> string \<Rightarrow> string" where
  \<comment> \<open>\<open>s.split(sep, maxsplit=1)[-1]\<close>: the text after the first separator, or all of
      \<open>s\<close> when there is none\<close>
  "split1_last sep s =
     (case dropWhile (\<lambda>c. c \<noteq> sep) s of
        [] \<Rightarrow> s
      | _ # rest \<Rightarrow> rest)"

fun join :: "char \<Rightarrow> string list \<Rightarrow> string" where
  \<comment> \<open>\<open>sep.join(parts)\<close>\<close>
  "join sep [] = []"
| "join sep [p] = p"
| "join sep (p # q # ps) = p @ sep # join sep (q # ps)"

subsection \<open>\<open>int(text)\<close>\<close>

text \<open>
  CPython's \<open>int\<close> on a \<open>str\<close>, base 10: white space around the literal is skipped, then
  an optional sign, then decimal digits in which single underscores may stand between two
  digits. Anything else is a \<open>ValueError\<close>, and so is a literal of more than
  \<open>int_max_str_digits\<close> digits (the interpreter's default limit).
\<close>

definition int_whitespace :: "char list" where
  "int_whitespace = [CHR 0x09, CHR 0x0A, CHR 0x0B, CHR 0x0C, CHR 0x0D, CHR 0x20]"

definition digit_value :: "char \<Rightarrow> nat option" where
  "digit_value c = map_of (zip ''0123456789'' [0, 1, 2, 3, 4, 5, 6, 7, 8, 9]) c"

fun digits_of :: "string \<Rightarrow> nat list option" where
  "digits_of [] = None"
| "digits_of [c] = map_option (\<lambda>d. [d]) (digit_value c)"
| "digits_of (c # c' # cs) =
     (case digit_value c of
        None \<Rightarrow> None
      | Some d \<Rightarrow>
          map_option (Cons d) (if c' = CHR ''_'' then digits_of cs else digits_of (c' # cs)))"

definition decimal :: "nat list \<Rightarrow> int" where
  "decimal ds = foldl (\<lambda>n d. 10 * n + int d) 0 ds"

definition int_max_str_digits :: nat where
  "int_max_str_digits = 4300"

definition py_int :: "string \<Rightarrow> exn + int" where
  "py_int s =
     (let body = strip_chars int_whitespace s;
          negative = (case body of c # _ \<Rightarrow> c = CHR ''-'' | [] \<Rightarrow> False);
          unsigned = (case body of
                        c # cs \<Rightarrow> if c = CHR ''-'' \<or> c = CHR ''+'' then cs else body
                      | [] \<Rightarrow> body)
      in case digits_of unsigned of
           None \<Rightarrow> Inl ValueError
         | Some ds \<Rightarrow>
             if int_max_str_digits < length ds then Inl ValueError
             else Inr (if negative then - decimal ds else decimal ds))"

subsection \<open>Floats and the true division of integers\<close>

text \<open>
  A \<open>float\<close> is an IEEE 754 double. A finite one is modelled by the rational number it
  denotes, except for the zero of negative sign, which is a value of its own.
\<close>

datatype pyfloat = Finite rat | NegZero | PosInf | NegInf | NaN

definition float_value :: "pyfloat \<Rightarrow> rat option" where
  \<comment> \<open>the number that a finite float denotes\<close>
  "float_value x = (case x of Finite r \<Rightarrow> Some r | NegZero \<Rightarrow> Some 0 | _ \<Rightarrow> None)"

text \<open>
  The double nearest to a rational \<open>a\<close>. With \<open>2^k \<le> \<bar>a\<bar> < 2^(k+1)\<close>, the doubles around
  \<open>a\<close> are the multiples of \<open>2^(k-52)\<close>, or of \<open>2^-1074\<close> where \<open>a\<close> is too small for a
  mantissa of 53 bits; \<open>a\<close> is rounded to the nearest multiple, and to the even one of
  two that are equally near. The result is \<open>2^1024\<close> or more when \<open>a\<close> is beyond the range
  of the finite doubles. \<open>bit_length\<close> is \<open>int.bit_length\<close> on the integers that are not
  negative.
\<close>

function bit_length :: "int \<Rightarrow> int" where
  "bit_length n = (if n \<le> 0 then 0 else bit_length (n div 2) + 1)"
  by pat_completeness auto
termination
  by (relation "measure nat") auto

declare bit_length.simps [simp del]

definition pow2 :: "int \<Rightarrow> rat" where
  "pow2 e = (if 0 \<le> e then 2 ^ nat e else 1 / 2 ^ nat (- e))"

definition floor_log2 :: "rat \<Rightarrow> int" where
  "floor_log2 a =
     (if 1 \<le> a then bit_length \<lfloor>a\<rfloor> - 1 else - bit_length (\<lceil>1 / a\<rceil> - 1))"

definition round_half_even :: "rat \<Rightarrow> int" where
  "round_half_even r =
     (let f = \<lfloor>r\<rfloor>; d = r - rat_of_int f
      in if d < 1 / 2 then f else if 1 / 2 < d then f + 1 else if even f then f else f + 1)"

definition nearest_double :: "rat \<Rightarrow> rat" where
  "nearest_double a =
     (if a = 0 then 0
      else let e = max (floor_log2 \<bar>a\<bar> - 52) (- 1074)
           in rat_of_int (round_half_even (a / pow2 e)) * pow2 e)"

definition to_float :: "bool \<Rightarrow> rat \<Rightarrow> pyfloat" where
  \<comment> \<open>the float of the given sign that is nearest to the magnitude \<open>a\<close>\<close>
  "to_float negative a =
     (let q = nearest_double a
      in if 2 ^ 1024 \<le> q then (if negative then NegInf else PosInf)
         else if q = 0 then (if negative then NegZero else Finite 0)
         else Finite (if negative then - q else q))"

text \<open>
  \<open>a / b\<close> on Python integers is the float nearest to the quotient. Division by zero
  raises \<open>ZeroDivisionError\<close>; a quotient whose nearest double is not finite, that is
  one of magnitude at least \<open>2^1024 - 2^970\<close>, raises \<open>OverflowError\<close>.
\<close>

definition py_truediv :: "int \<Rightarrow> int \<Rightarrow> exn + pyfloat" where
  "py_truediv a b =
     (if b = 0 then Inl ZeroDivisionError
      else case to_float ((a < 0) \<noteq> (b < 0)) (\<bar>rat_of_int a\<bar> / \<bar>rat_of_int b\<bar>) of
             PosInf \<Rightarrow> Inl OverflowError
           | NegInf \<Rightarrow> Inl OverflowError
           | x \<Rightarrow> Inr x)"

section \<open>events.py\<close>

subsection \<open>ItemAttribute\<close>

datatype ItemAttribute =
    Unknown | Type | Name | LangCode | LangName | CodecId | CodecShort | CodecLong
  | ChapterCount | Duration | DiskSize | DiskSizeBytes | StreamTypeExtension | Bitrate
  | AudioChannelsCount | AngleInfo | SourceFileName | AudioSampleRate | AudioSampleSize
  | VideoSize | VideoAspectRatio | VideoFrameRate | StreamFlags | DateTime
  | OriginalTitleId | SegmentsCount | SegmentsMap | OutputFileName
  | MetadataLanguageCode | MetadataLanguageName | TreeInfo | PanelTitle | VolumeName
  | OrderWeight | OutputFormat | OutputFormatDescription | SeamlessInfo | PanelText
  | MkvFlags | MkvFlagsText | AudioChannelLayoutName | OutputCodecShort
  | OutputConversionType | OutputAudioSampleRate | OutputAudioSampleSize
  | OutputAudioChannelsCount | OutputAudioChannelLayoutName | OutputAudioChannelLayout
  | OutputAudioMixDescription | Comment | OffsetSequenceId

definition ItemAttribute_members :: "(int \<times> ItemAttribute \<times> string) list" where
  \<comment> \<open>value, member and name of every member, in the order of the class body\<close>
  "ItemAttribute_members =
     [(0, Unknown, ''Unknown''), (1, Type, ''Type''), (2, Name, ''Name''),
      (3, LangCode, ''LangCode''), (4, LangName, ''LangName''), (5, CodecId, ''CodecId''),
      (6, CodecShort, ''CodecShort''), (7, CodecLong, ''CodecLong''),
      (8, ChapterCount, ''ChapterCount''), (9, Duration, ''Duration''),
      (10, DiskSize, ''DiskSize''), (11, DiskSizeBytes, ''DiskSizeBytes''),
      (12, StreamTypeExtension, ''StreamTypeExtension''), (13, Bitrate, ''Bitrate''),
      (14, AudioChannelsCount, ''AudioChannelsCount''), (15, AngleInfo, ''AngleInfo''),
      (16, SourceFileName, ''SourceFileName''), (17, AudioSampleRate, ''AudioSampleRate''),
      (18, AudioSampleSize, ''AudioSampleSize''), (19, VideoSize, ''VideoSize''),
      (20, VideoAspectRatio, ''VideoAspectRatio''), (21, VideoFrameRate, ''VideoFrameRate''),
      (22, StreamFlags, ''StreamFlags''), (23, DateTime, ''DateTime''),
      (24, OriginalTitleId, ''OriginalTitleId''), (25, SegmentsCount, ''SegmentsCount''),
      (26, SegmentsMap, ''SegmentsMap''), (27, OutputFileName, ''OutputFileName''),
      (28, MetadataLanguageCode, ''MetadataLanguageCode''),
      (29, MetadataLanguageName, ''MetadataLanguageName''), (30, TreeInfo, ''TreeInfo''),
      (31, PanelTitle, ''PanelTitle''), (32, VolumeName, ''VolumeName''),
      (33, OrderWeight, ''OrderWeight''), (34, OutputFormat, ''OutputFormat''),
      (35, OutputFormatDescription, ''OutputFormatDescription''),
      (36, SeamlessInfo, ''SeamlessInfo''), (37, PanelText, ''PanelText''),
      (38, MkvFlags, ''MkvFlags''), (39, MkvFlagsText, ''MkvFlagsText''),
      (40, AudioChannelLayoutName, ''AudioChannelLayoutName''),
      (41, OutputCodecShort, ''OutputCodecShort''),
      (42, OutputConversionType, ''OutputConversionType''),
      (43, OutputAudioSampleRate, ''OutputAudioSampleRate''),
      (44, OutputAudioSampleSize, ''OutputAudioSampleSize''),
      (45, OutputAudioChannelsCount, ''OutputAudioChannelsCount''),
      (46, OutputAudioChannelLayoutName, ''OutputAudioChannelLayoutName''),
      (47, OutputAudioChannelLayout, ''OutputAudioChannelLayout''),
      (48, OutputAudioMixDescription, ''OutputAudioMixDescription''),
      (49, Comment, ''Comment''), (50, OffsetSequenceId, ''OffsetSequenceId'')]"

definition ItemAttribute_of :: "int \<Rightarrow> exn + ItemAttribute \<times> string" where
  \<comment> \<open>\<open>ItemAttribute(item_id)\<close> with its \<open>.name\<close>; a value that no member has raises
      \<open>ValueError\<close>\<close>
  "ItemAttribute_of item_id =
     (case map_of ItemAttribute_members item_id of
        None \<Rightarrow> Inl ValueError
      | Some member \<Rightarrow> Inr member)"

subsection \<open>Events\<close>

text \<open>
  An attribute that a constructor stores as it received it is a Python value. The type
  \<open>'d\<close> is the runtime's \<open>datetime.timedelta\<close>.
\<close>

datatype 'd pyval = PyInt int | PyStr string | PyTimedelta 'd

record 'd InfoEvent =
  item_id :: int
  item_name :: string
  info_code :: int
  item_values :: "string list"
  raw_value :: string
  item_value :: "'d pyval"

datatype 'd event =
    UnknownEvent "string list"
  | StartEvent int
  | StopEvent int
  | MessageEvent "'d pyval" "'d pyval" "'d pyval" string string "string list"
  | ProgressCurrentEvent "'d pyval" "'d pyval" string
  | ProgressTotalEvent "'d pyval" "'d pyval" string
  | ProgressValueEvent int int int pyfloat pyfloat
  | DriveScanEvent "'d pyval" "'d pyval" "'d pyval" "'d pyval" "'d pyval" "'d pyval" "'d pyval"
  | TitleCountEvent "'d pyval"
  | DiscInfoEvent "'d InfoEvent"
  | TitleInfoEvent "'d InfoEvent" int
  | StreamInfoEvent "'d InfoEvent" int int

text \<open>
  \<open>BaseEvent.parse\<close> drops what stands before the first colon, splits the rest at the
  commas and calls the class on the parts. Each \<open>_init\<close> function below is the class
  called on that list: a list that does not fit the constructor's signature is a
  \<open>TypeError\<close>, and the parts arrive as \<open>str\<close>.
\<close>

definition raw_params :: "string \<Rightarrow> string list" where
  "raw_params raw_string = split_on (CHR '','') (split1_last (CHR '':'') raw_string)"

fun MessageEvent_init :: "string list \<Rightarrow> exn + 'd event" where
  "MessageEvent_init (code # flags # count # message # format_code # parameters) =
     Inr (MessageEvent (PyStr code) (PyStr flags) (PyStr count)
            (strip_chars [dquote] message) (strip_chars [dquote] format_code)
            (map (strip_chars [dquote]) parameters))"
| "MessageEvent_init _ = Inl TypeError"

fun ProgressCurrentEvent_init :: "string list \<Rightarrow> exn + 'd event" where
  "ProgressCurrentEvent_init [code, operation_id, name] =
     Inr (ProgressCurrentEvent (PyStr code) (PyStr operation_id) (strip_chars [dquote] name))"
| "ProgressCurrentEvent_init _ = Inl TypeError"

fun ProgressTotalEvent_init :: "string list \<Rightarrow> exn + 'd event" where
  "ProgressTotalEvent_init [code, operation_id, name] =
     Inr (ProgressTotalEvent (PyStr code) (PyStr operation_id) (strip_chars [dquote] name))"
| "ProgressTotalEvent_init _ = Inl TypeError"

fun ProgressValueEvent_init :: "string list \<Rightarrow> exn + 'd event" where
  "ProgressValueEvent_init [current_text, total_text, limit_text] =
     (case py_int current_text of Inl e \<Rightarrow> Inl e | Inr c \<Rightarrow>
      case py_int total_text of Inl e \<Rightarrow> Inl e | Inr t \<Rightarrow>
      case py_int limit_text of Inl e \<Rightarrow> Inl e | Inr l \<Rightarrow>
      case py_truediv c l of Inl e \<Rightarrow> Inl e | Inr current_fraction \<Rightarrow>
      case py_truediv t l of Inl e \<Rightarrow> Inl e | Inr total_fraction \<Rightarrow>
        Inr (ProgressValueEvent c t l current_fraction total_fraction))"
| "ProgressValueEvent_init _ = Inl TypeError"

fun DriveScanEvent_init :: "string list \<Rightarrow> exn + 'd event" where
  "DriveScanEvent_init [index, visible, enabled, flags, drive_name, disc_name, unknown_string] =
     Inr (DriveScanEvent (PyStr index) (PyStr visible) (PyStr enabled) (PyStr flags)
            (PyStr drive_name) (PyStr disc_name) (PyStr unknown_string))"
| "DriveScanEvent_init _ = Inl TypeError"

fun TitleCountEvent_init :: "string list \<Rightarrow> exn + 'd event" where
  "TitleCountEvent_init [count] = Inr (TitleCountEvent (PyStr count))"
| "TitleCountEvent_init _ = Inl TypeError"

text \<open>
  The decoder takes the runtime's \<open>timedelta(hours=h, minutes=m, seconds=float(s))\<close> as
  its parameter \<open>td\<close>: whatever that call raises or returns, the decoder passes on. The
  type \<open>'d\<close> of the durations is the runtime's as well.
\<close>

type_synonym 'd timedelta_fn = "int \<Rightarrow> int \<Rightarrow> string \<Rightarrow> exn + 'd"

definition integer_attributes :: "ItemAttribute list" where
  "integer_attributes =
     [OrderWeight, SegmentsCount, DiskSizeBytes, AudioChannelsCount, AudioSampleRate,
      AudioSampleSize, StreamFlags, ChapterCount]"

definition coerce_value :: "'d timedelta_fn \<Rightarrow> ItemAttribute \<Rightarrow> string \<Rightarrow> exn + 'd pyval" where
  \<comment> \<open>the \<open>match\<close> statement of \<open>InfoEvent.__init__\<close>\<close>
  "coerce_value td attribute raw =
     (if attribute \<in> set integer_attributes then
        (case py_int raw of Inl e \<Rightarrow> Inl e | Inr n \<Rightarrow> Inr (PyInt n))
      else if attribute = Duration then
        (case split_on (CHR '':'') raw of
           [hours, minutes, seconds] \<Rightarrow>
             (case py_int hours of Inl e \<Rightarrow> Inl e | Inr h \<Rightarrow>
              case py_int minutes of Inl e \<Rightarrow> Inl e | Inr m \<Rightarrow>
              case td h m seconds of Inl e \<Rightarrow> Inl e | Inr d \<Rightarrow> Inr (PyTimedelta d))
         | _ \<Rightarrow> Inl ValueError)
      else Inr (PyStr raw))"

definition InfoEvent_init ::
  "'d timedelta_fn \<Rightarrow> string \<Rightarrow> string \<Rightarrow> string list \<Rightarrow> exn + 'd InfoEvent" where
  "InfoEvent_init td item_id_text code_text values =
     (case py_int item_id_text of Inl e \<Rightarrow> Inl e | Inr iid \<Rightarrow>
      case ItemAttribute_of iid of Inl e \<Rightarrow> Inl e | Inr (attribute, name) \<Rightarrow>
      case py_int code_text of Inl e \<Rightarrow> Inl e | Inr c \<Rightarrow>
      let vs = map (strip_chars [dquote]) values;
          raw = strip_chars [dquote] (join (CHR '','') vs)
      in case coerce_value td attribute raw of Inl e \<Rightarrow> Inl e | Inr v \<Rightarrow>
           Inr \<lparr>item_id = iid, item_name = name, info_code = c, item_values = vs,
                raw_value = raw, item_value = v\<rparr>)"

fun DiscInfoEvent_init :: "'d timedelta_fn \<Rightarrow> string list \<Rightarrow> exn + 'd event" where
  "DiscInfoEvent_init td (item_id_text # code_text # values) =
     (case InfoEvent_init td item_id_text code_text values of
        Inl e \<Rightarrow> Inl e
      | Inr info \<Rightarrow> Inr (DiscInfoEvent info))"
| "DiscInfoEvent_init td _ = Inl TypeError"

fun TitleInfoEvent_init :: "'d timedelta_fn \<Rightarrow> string list \<Rightarrow> exn + 'd event" where
  "TitleInfoEvent_init td (title_number # item_id_text # code_text # values) =
     (case InfoEvent_init td item_id_text code_text values of Inl e \<Rightarrow> Inl e | Inr info \<Rightarrow>
      case py_int title_number of Inl e \<Rightarrow> Inl e | Inr t \<Rightarrow>
        Inr (TitleInfoEvent info t))"
| "TitleInfoEvent_init td _ = Inl TypeError"

fun StreamInfoEvent_init :: "'d timedelta_fn \<Rightarrow> string list \<Rightarrow> exn + 'd event" where
  "StreamInfoEvent_init td (title_number # stream_number # item_id_text # code_text # values) =
     (case InfoEvent_init td item_id_text code_text values of Inl e \<Rightarrow> Inl e | Inr info \<Rightarrow>
      case py_int title_number of Inl e \<Rightarrow> Inl e | Inr t \<Rightarrow>
      case py_int stream_number of Inl e \<Rightarrow> Inl e | Inr s \<Rightarrow>
        Inr (StreamInfoEvent info t s))"
| "StreamInfoEvent_init td _ = Inl TypeError"

definition message_type :: "string \<Rightarrow> string" where
  "message_type raw_string = strip (upper (split1_first (CHR '':'') raw_string))"

definition returned :: "exn + 'a \<Rightarrow> exn + 'a option" where
  \<comment> \<open>\<open>return\<close> of a value that the called constructor produced or failed to produce\<close>
  "returned r = (case r of Inl e \<Rightarrow> Inl e | Inr x \<Rightarrow> Inr (Some x))"

definition get_event :: "'d timedelta_fn \<Rightarrow> string \<Rightarrow> exn + 'd event option" where
  "get_event td raw_string =
     (let tag = message_type raw_string;
          params = raw_params raw_string
      in if tag = ''MSG'' then returned (MessageEvent_init params)
         else if tag = ''PRGC'' then returned (ProgressCurrentEvent_init params)
         else if tag = ''PRGT'' then returned (ProgressTotalEvent_init params)
         else if tag = ''PRGV'' then returned (ProgressValueEvent_init params)
         else if tag = ''DRV'' then returned (DriveScanEvent_init params)
         else if tag = ''TCOUT'' then returned (TitleCountEvent_init params)
         else if tag = ''CINFO'' then returned (DiscInfoEvent_init td params)
         else if tag = ''TINFO'' then returned (TitleInfoEvent_init td params)
         else if tag = ''SINFO'' then returned (StreamInfoEvent_init td params)
         else if length (strip raw_string) \<le> 0 then Inr None
         else Inr (Some (UnknownEvent params)))"

subsection \<open>The runtime's \<open>float\<close> and \<open>timedelta\<close>\<close>

text \<open>
  To run the decoder on concrete lines, \<open>timedelta_exact\<close> is CPython's
  \<open>timedelta(hours=h, minutes=m, seconds=float(s))\<close>. \<open>float\<close> accepts the literals that
  CPython accepts, white space around them and single underscores between digits, and
  gives the float nearest to the number written.
\<close>

fun strip_underscores :: "char option \<Rightarrow> string \<Rightarrow> string option" where
  \<comment> \<open>an underscore must stand between two digits; \<open>prev\<close> is the character before\<close>
  "strip_underscores prev [] = (if prev = Some (CHR ''_'') then None else Some [])"
| "strip_underscores prev (c # cs) =
     (if c = CHR ''_'' then
        (case prev of
           None \<Rightarrow> None
         | Some p \<Rightarrow> if digit_value p = None then None else strip_underscores (Some c) cs)
      else if prev = Some (CHR ''_'') \<and> digit_value c = None then None
      else map_option (Cons c) (strip_underscores (Some c) cs))"

definition digit_run :: "string \<Rightarrow> nat list \<times> string" where
  \<comment> \<open>the leading digits of a text and what follows them\<close>
  "digit_run s =
     (List.map_filter digit_value (takeWhile (\<lambda>c. digit_value c \<noteq> None) s),
      dropWhile (\<lambda>c. digit_value c \<noteq> None) s)"

definition scale10 :: "int \<Rightarrow> int \<Rightarrow> rat" where
  "scale10 m k = (if 0 \<le> k then rat_of_int (m * 10 ^ nat k) else rat_of_int m / rat_of_int (10 ^ nat (- k)))"

definition exponent_of :: "string \<Rightarrow> int option" where
  \<comment> \<open>what may follow the mantissa: nothing, or \<open>e\<close>, an optional sign and digits\<close>
  "exponent_of s =
     (case s of
        [] \<Rightarrow> Some 0
      | c # cs \<Rightarrow>
          if c = CHR ''e'' \<or> c = CHR ''E'' then
            (let negative = (case cs of d # _ \<Rightarrow> d = CHR ''-'' | [] \<Rightarrow> False);
                 unsigned = (case cs of
                               d # ds \<Rightarrow> if d = CHR ''-'' \<or> d = CHR ''+'' then ds else cs
                             | [] \<Rightarrow> cs)
             in case digit_run unsigned of
                  (d # ds, []) \<Rightarrow> Some (if negative then - decimal (d # ds) else decimal (d # ds))
                | _ \<Rightarrow> None)
          else None)"

definition unsigned_float :: "string \<Rightarrow> exn + (bool \<Rightarrow> pyfloat)" where
  "unsigned_float s =
     (if upper s = ''INF'' \<or> upper s = ''INFINITY'' then
        Inr (\<lambda>negative. if negative then NegInf else PosInf)
      else if upper s = ''NAN'' then Inr (\<lambda>negative. NaN)
      else
        (let (whole, after_whole) = digit_run s;
             (fraction, after_fraction) =
               (case after_whole of
                  c # cs \<Rightarrow> if c = CHR ''.'' then digit_run cs else ([], after_whole)
                | [] \<Rightarrow> ([], after_whole))
         in if whole = [] \<and> fraction = [] then Inl ValueError
            else (case exponent_of after_fraction of
                    None \<Rightarrow> Inl ValueError
                  | Some k \<Rightarrow>
                      Inr (\<lambda>negative.
                             to_float negative
                               (scale10 (decimal (whole @ fraction))
                                  (k - int (length fraction)))))))"

definition py_float :: "string \<Rightarrow> exn + pyfloat" where
  "py_float s =
     (case (if CHR ''_'' \<in> set s then strip_underscores None s else Some s) of
        None \<Rightarrow> Inl ValueError
      | Some plain \<Rightarrow>
          (case strip_chars int_whitespace plain of
             [] \<Rightarrow> Inl ValueError
           | c # cs \<Rightarrow>
               if c = CHR ''-'' then
                 (case unsigned_float cs of Inl e \<Rightarrow> Inl e | Inr float \<Rightarrow> Inr (float True))
               else if c = CHR ''+'' then
                 (case unsigned_float cs of Inl e \<Rightarrow> Inl e | Inr float \<Rightarrow> Inr (float False))
               else
                 (case unsigned_float (c # cs) of
                    Inl e \<Rightarrow> Inl e
                  | Inr float \<Rightarrow> Inr (float False))))"

text \<open>
  The constructor adds up the whole seconds, minutes and hours in microseconds as
  integers. The fractional part of the seconds is multiplied by \<open>10^6\<close> as a double, and
  what that leaves beyond whole microseconds is rounded half to even. A duration of more
  than 999999999 days either way is an \<open>OverflowError\<close>, and so are infinite seconds;
  seconds that are not a number are a \<open>ValueError\<close>.
\<close>

definition truncate :: "rat \<Rightarrow> int" where
  "truncate r = (if 0 \<le> r then \<lfloor>r\<rfloor> else \<lceil>r\<rceil>)"

datatype timedelta = Microseconds int

definition timedelta_of_seconds :: "int \<Rightarrow> int \<Rightarrow> rat \<Rightarrow> exn + timedelta" where
  "timedelta_of_seconds hours minutes seconds =
     (let whole = truncate seconds;
          fraction = seconds - rat_of_int whole;
          us = round_half_even
                 (rat_of_int ((hours * 3600 + minutes * 60 + whole) * 1000000)
                  + nearest_double (fraction * 1000000));
          days = us div 86400000000
      in if 999999999 < \<bar>days\<bar> then Inl OverflowError else Inr (Microseconds us))"

definition timedelta_exact :: "int \<Rightarrow> int \<Rightarrow> string \<Rightarrow> exn + timedelta" where
  "timedelta_exact hours minutes seconds_text =
     (case py_float seconds_text of
        Inl e \<Rightarrow> Inl e
      | Inr NaN \<Rightarrow> Inl ValueError
      | Inr PosInf \<Rightarrow> Inl OverflowError
      | Inr NegInf \<Rightarrow> Inl OverflowError
      | Inr NegZero \<Rightarrow> timedelta_of_seconds hours minutes 0
      | Inr (Finite seconds) \<Rightarrow> timedelta_of_seconds hours minutes seconds)"

section \<open>sources.py\<close>

text \<open>
  A \<open>Source\<close> is modelled by the two attributes that \<open>run_command\<close> changes.
  \<open>event_queue\<close> lists what has been put on the queue so far, oldest first: the queue is
  unbounded (\<open>EVENT_QUEUE_SIZE = 0\<close>), so a \<open>put\<close> never waits, and the consumer that
  takes items out runs in another task. An item of the queue or of a history is a
  Python object, an event or \<open>None\<close>.
\<close>

record 'd Source =
  command_counter :: int
  event_queue :: "'d event option list"

definition put :: "'d event option \<Rightarrow> 'd Source \<Rightarrow> 'd Source" where
  "put item self = self\<lparr>event_queue := event_queue self @ [item]\<rparr>"

text \<open>
  The external process is the environment. \<open>create_subprocess_exec\<close> either raises or
  starts a process, which is described by what the reads of \<open>run_command\<close> meet: the
  outcome of each \<open>readline\<close> while \<open>returncode\<close> is still \<open>None\<close> (bytes, empty at end of
  file, or no line within the second allowed), and the bytes \<open>communicate\<close> returns after
  the exit. A process that never exits has no such description: on it \<open>run_command\<close>
  does not return.
\<close>

datatype bytes = Utf8 string | NotUtf8

definition decode_utf8 :: "bytes \<Rightarrow> exn + string" where
  "decode_utf8 b = (case b of Utf8 s \<Rightarrow> Inr s | NotUtf8 \<Rightarrow> Inl UnicodeDecodeError)"

datatype read = Read bytes | TimedOut

datatype process = SpawnError exn | Process "read list" bytes

definition line_breaks :: "char list" where
  \<comment> \<open>the ASCII line boundaries of \<open>str.splitlines\<close> other than the carriage return\<close>
  "line_breaks = [CHR 0x0A, CHR 0x0B, CHR 0x0C, CHR 0x1C, CHR 0x1D, CHR 0x1E]"

function splitlines_from :: "string \<Rightarrow> string \<Rightarrow> string list" where
  "splitlines_from cur [] = (if cur = [] then [] else [cur])"
| "splitlines_from cur (c # cs) =
     (if c = CHR 0x0D then
        cur # splitlines_from []
                (case cs of
                   [] \<Rightarrow> []
                 | c' # cs' \<Rightarrow> if c' = CHR 0x0A then cs' else cs)
      else if c \<in> set line_breaks then cur # splitlines_from [] cs
      else splitlines_from (cur @ [c]) cs)"
  by pat_completeness auto
termination
  by (relation "measure (\<lambda>(cur, s). length s)") (auto split: list.splits)

definition splitlines :: "string \<Rightarrow> string list" where
  \<comment> \<open>\<open>s.splitlines()\<close>\<close>
  "splitlines s = splitlines_from [] s"

type_synonym 'd run = "'d Source \<times> 'd event option list"

text \<open>
  The loop \<open>while self.process.returncode is None\<close>. Only \<open>TimeoutError\<close> is caught: any
  other exception leaves the loop and \<open>run_command\<close> with the state reached so far. The
  pause of 10 ms after an empty read changes nothing that is modelled.
\<close>

fun read_loop :: "'d timedelta_fn \<Rightarrow> read list \<Rightarrow> 'd run \<Rightarrow> 'd run \<times> exn option" where
  "read_loop td [] run = (run, None)"
| "read_loop td (TimedOut # reads) run = read_loop td reads run"
| "read_loop td (Read byte_line # reads) (self, history) =
     (case decode_utf8 byte_line of
        Inl e \<Rightarrow> ((self, history), Some e)
      | Inr line \<Rightarrow>
          (case get_event td (rstrip_chars [CHR 0x0D, CHR 0x0A] line) of
             Inl e \<Rightarrow> ((self, history), Some e)
           | Inr None \<Rightarrow> read_loop td reads (self, history)
           | Inr (Some event) \<Rightarrow>
               read_loop td reads (put (Some event) self, history @ [Some event])))"

text \<open>The loop over what \<open>communicate\<close> returned.\<close>

fun drain :: "'d timedelta_fn \<Rightarrow> string list \<Rightarrow> 'd run \<Rightarrow> 'd run \<times> exn option" where
  "drain td [] run = (run, None)"
| "drain td (line # lines) (self, history) =
     (case get_event td (rstrip_chars [CHR 0x0D, CHR 0x0A] line) of
        Inl e \<Rightarrow> ((self, history), Some e)
      | Inr event \<Rightarrow> drain td lines (put event self, history @ [event]))"

text \<open>
  \<open>run_command\<close> returns the source as the call left it, and either the exception that
  ended the call or the pair it returns. The lock is free when a call starts and free
  again when it ends, on every path; the arguments only matter to the process, and
  \<open>wait_for_queue\<close> only to the consumer of the queue.
\<close>

definition run_command ::
  "'d timedelta_fn \<Rightarrow> process \<Rightarrow> 'd Source \<Rightarrow> 'd Source \<times> (exn + int \<times> 'd event option list)" where
  "run_command td proc self =
     (let command_number = command_counter self;
          self1 = self\<lparr>command_counter := command_counter self + 1\<rparr>;
          self2 = put (Some (StartEvent command_number)) self1;
          history = [Some (StartEvent command_number)]
      in case proc of
           SpawnError e \<Rightarrow> (self2, Inl e)
         | Process reads remaining \<Rightarrow>
             (case read_loop td reads (self2, history) of
                ((self3, history3), Some e) \<Rightarrow> (self3, Inl e)
              | ((self3, history3), None) \<Rightarrow>
                  (case decode_utf8 remaining of
                     Inl e \<Rightarrow> (self3, Inl e)
                   | Inr stdout \<Rightarrow>
                       (case drain td (splitlines stdout) (self3, history3) of
                          ((self4, history4), Some e) \<Rightarrow> (self4, Inl e)
                        | ((self4, history4), None) \<Rightarrow>
                            (put (Some (StopEvent command_number)) self4,
                             Inr (command_number,
                                  history4 @ [Some (StopEvent command_number)]))))))"

fun run_commands :: "'d timedelta_fn \<Rightarrow> process list \<Rightarrow> 'd Source \<Rightarrow> 'd Source" where
  \<comment> \<open>one call of \<open>run_command\<close> after the other on the same source\<close>
  "run_commands td [] self = self"
| "run_commands td (proc # procs) self = run_commands td procs (fst (run_command td proc self))"

subsection \<open>\<open>history_to_dict\<close>\<close>

text \<open>
  A Python \<open>dict\<close> is a list of key and value pairs without repeated keys, in the order
  in which the keys were first stored: \<open>AList.update\<close> is \<open>d[k] = v\<close>. The dictionaries
  built here hold attribute names next to one fixed key, \<open>"Titles"\<close> at the top and
  \<open>"Streams"\<close> in a title. The fixed key is a field of its own in the model, which is
  the same thing as long as no attribute is named like it; none is
  (\<open>item_name\<close> is always the name of a member of \<open>ItemAttribute\<close>). The type of the
  field is a parameter because the function first stores a dictionary by number under
  that key and in the end a list.
\<close>

type_synonym ('k, 'v) dict = "('k \<times> 'v) list"

definition dict_get :: "('k, 'v) dict \<Rightarrow> 'k \<Rightarrow> 'v \<Rightarrow> 'v" where
  \<comment> \<open>\<open>d.get(k, default)\<close>\<close>
  "dict_get d k dflt = (case map_of d k of None \<Rightarrow> dflt | Some v \<Rightarrow> v)"

definition values_by_sorted_keys :: "('k::linorder, 'v) dict \<Rightarrow> 'v list" where
  \<comment> \<open>\<open>[d[k] for k in sorted(d.keys())]\<close>\<close>
  "values_by_sorted_keys d = List.map_filter (map_of d) (sort (map fst d))"

record ('d, 's) title =
  title_attributes :: "(string, 'd pyval) dict"
  Streams :: 's

record ('d, 't) info =
  info_attributes :: "(string, 'd pyval) dict"
  Titles :: 't

type_synonym 'd stream_dict = "(string, 'd pyval) dict"
type_synonym 'd title_building = "('d, (int, 'd stream_dict) dict) title"
type_synonym 'd info_building = "('d, (int, 'd title_building) dict) info"
type_synonym 'd title_dict = "('d, 'd stream_dict list) title"
type_synonym 'd info_dict = "('d, 'd title_dict list) info"

definition new_title :: "'d title_building" where
  \<comment> \<open>\<open>{"Streams": {}}\<close>\<close>
  "new_title = \<lparr>title_attributes = [], Streams = []\<rparr>"

fun collect :: "'d info_building \<Rightarrow> 'd event option \<Rightarrow> 'd info_building" where
  \<comment> \<open>the body of \<open>for event in history\<close>\<close>
  "collect info (Some (DiscInfoEvent event)) =
     info\<lparr>info_attributes :=
            AList.update (item_name event) (item_value event) (info_attributes info)\<rparr>"
| "collect info (Some (TitleInfoEvent event title_number)) =
     (let title = dict_get (Titles info) title_number new_title;
          title = title\<lparr>title_attributes :=
                    AList.update (item_name event) (item_value event) (title_attributes title)\<rparr>
      in info\<lparr>Titles := AList.update title_number title (Titles info)\<rparr>)"
| "collect info (Some (StreamInfoEvent event title_number stream_number)) =
     (let title = dict_get (Titles info) title_number new_title;
          stream = dict_get (Streams title) stream_number [];
          stream = AList.update (item_name event) (item_value event) stream;
          title = title\<lparr>Streams := AList.update stream_number stream (Streams title)\<rparr>
      in info\<lparr>Titles := AList.update title_number title (Titles info)\<rparr>)"
| "collect info _ = info"

definition title_to_lists :: "'d title_building \<Rightarrow> 'd title_dict" where
  "title_to_lists title =
     \<lparr>title_attributes = title_attributes title,
      Streams = values_by_sorted_keys (Streams title)\<rparr>"

definition history_to_dict :: "'d event option list \<Rightarrow> 'd info_dict" where
  "history_to_dict history =
     (let info = foldl collect \<lparr>info_attributes = [], Titles = []\<rparr> history
      in \<lparr>info_attributes = info_attributes info,
          Titles = map title_to_lists (values_by_sorted_keys (Titles info))\<rparr>)"

text \<open>
  What a history says, to compare the result with. An attribute stored more than once
  keeps its latest value. The title numbers of a history are those of its
  \<open>TitleInfoEvent\<close>s and \<open>StreamInfoEvent\<close>s, in ascending order and each once; the
  stream numbers of a title are those of its \<open>StreamInfoEvent\<close>s, likewise.
\<close>

fun disc_item :: "'d event option \<Rightarrow> (string \<times> 'd pyval) option" where
  "disc_item (Some (DiscInfoEvent event)) = Some (item_name event, item_value event)"
| "disc_item _ = None"

fun title_item :: "int \<Rightarrow> 'd event option \<Rightarrow> (string \<times> 'd pyval) option" where
  "title_item t (Some (TitleInfoEvent event title_number)) =
     (if title_number = t then Some (item_name event, item_value event) else None)"
| "title_item t _ = None"

fun stream_item :: "int \<Rightarrow> int \<Rightarrow> 'd event option \<Rightarrow> (string \<times> 'd pyval) option" where
  "stream_item t s (Some (StreamInfoEvent event title_number stream_number)) =
     (if title_number = t \<and> stream_number = s then Some (item_name event, item_value event)
      else None)"
| "stream_item t s _ = None"

fun title_of :: "'d event option \<Rightarrow> int option" where
  "title_of (Some (TitleInfoEvent event title_number)) = Some title_number"
| "title_of (Some (StreamInfoEvent event title_number stream_number)) = Some title_number"
| "title_of _ = None"

fun stream_of :: "int \<Rightarrow> 'd event option \<Rightarrow> int option" where
  "stream_of t (Some (StreamInfoEvent event title_number stream_number)) =
     (if title_number = t then Some stream_number else None)"
| "stream_of t _ = None"

definition latest :: "('k \<times> 'v) list \<Rightarrow> 'k \<Rightarrow> 'v option" where
  "latest items = map_of (rev items)"

definition title_numbers :: "'d event option list \<Rightarrow> int list" where
  "title_numbers history = sort (remdups (List.map_filter title_of history))"

definition stream_numbers :: "'d event option list \<Rightarrow> int \<Rightarrow> int list" where
  "stream_numbers history t = sort (remdups (List.map_filter (stream_of t) history))"

text \<open>
  The invariant of the loop over the history: what has been collected from the events
  read so far.
\<close>

definition title_collected :: "'d event option list \<Rightarrow> int \<Rightarrow> 'd title_building \<Rightarrow> bool" where
  "title_collected history t title \<longleftrightarrow>
     map_of (title_attributes title) = latest (List.map_filter (title_item t) history)
   \<and> distinct (map fst (Streams title))
   \<and> fst ` set (Streams title) = set (List.map_filter (stream_of t) history)
   \<and> (\<forall>s stream. map_of (Streams title) s = Some stream \<longrightarrow>
         map_of stream = latest (List.map_filter (stream_item t s) history))"

definition collected :: "'d event option list \<Rightarrow> 'd info_building \<Rightarrow> bool" where
  "collected history info \<longleftrightarrow>
     map_of (info_attributes info) = latest (List.map_filter disc_item history)
   \<and> distinct (map fst (Titles info))
   \<and> fst ` set (Titles info) = set (List.map_filter title_of history)
   \<and> (\<forall>t title. map_of (Titles info) t = Some title \<longrightarrow> title_collected history t title)"

section \<open>drive.py\<close>

text \<open>
  The device is the environment: \<open>open_device\<close> is what \<open>os.open\<close> on the device path
  does and \<open>ioctl\<close> what \<open>fcntl.ioctl\<close> does, each as a function of the number of
  \<open>ioctl\<close> calls made before, which serves as the time. A call returns a value or fails
  with an \<open>errno\<close>.
\<close>

definition EBUSY :: int where
  "EBUSY = 16"

definition CDROMEJECT :: int where
  "CDROMEJECT = 21257"

definition CDROMCLOSETRAY :: int where
  "CDROMCLOSETRAY = 21273"

definition CDROM_DRIVE_STATUS :: int where
  "CDROM_DRIVE_STATUS = 21286"

definition CDROM_LOCKDOOR :: int where
  "CDROM_LOCKDOOR = 21289"

datatype syscall = Returns int | Fails int

record hardware =
  open_device :: "nat \<Rightarrow> syscall"
  ioctl :: "nat \<Rightarrow> int \<Rightarrow> int \<Rightarrow> syscall"

record drive =
  ioctl_calls :: nat
  slept_ms :: nat
  open_fds :: "int list"

text \<open>
  The loop \<open>while True\<close> of \<open>run_ioctl\<close>. It has no bound: on a device that stays busy it
  never ends, which is the value \<open>None\<close>.
\<close>

partial_function (option) ioctl_loop ::
  "hardware \<Rightarrow> int \<Rightarrow> int \<Rightarrow> drive \<Rightarrow> ((exn + int) \<times> drive) option" where
  "ioctl_loop hw request arg d =
     (case ioctl hw (ioctl_calls d) request arg of
        Returns result \<Rightarrow> Some (Inr result, d\<lparr>ioctl_calls := ioctl_calls d + 1\<rparr>)
      | Fails errno \<Rightarrow>
          if errno = EBUSY then
            ioctl_loop hw request arg
              (d\<lparr>ioctl_calls := ioctl_calls d + 1, slept_ms := slept_ms d + 100\<rparr>)
          else Some (Inl (OSError errno), d\<lparr>ioctl_calls := ioctl_calls d + 1\<rparr>))"

definition run_ioctl ::
  "hardware \<Rightarrow> int \<Rightarrow> int \<Rightarrow> drive \<Rightarrow> ((exn + int) \<times> drive) option" where
  "run_ioctl hw request arg d =
     (case open_device hw (ioctl_calls d) of
        Fails errno \<Rightarrow> Some (Inl (OSError errno), d)
      | Returns fd \<Rightarrow>
          (case ioctl_loop hw request arg (d\<lparr>open_fds := fd # open_fds d\<rparr>) of
             None \<Rightarrow> None
           | Some (Inl e, d') \<Rightarrow> Some (Inl e, d')
           | Some (Inr result, d') \<Rightarrow>
               Some (Inr result, d'\<lparr>open_fds := remove1 fd (open_fds d')\<rparr>)))"

definition get_status :: "hardware \<Rightarrow> drive \<Rightarrow> ((exn + int) \<times> drive) option" where
  "get_status hw d = run_ioctl hw CDROM_DRIVE_STATUS 0 d"

text \<open>
  The operations below end without a \<open>return\<close>: they give \<open>None\<close>, written \<open>()\<close>, when
  their last call has returned, and pass on an exception or a call that never returns.
  The argument \<open>locked\<close> is used for its truth value only.
\<close>

definition set_door_lock :: "hardware \<Rightarrow> bool \<Rightarrow> drive \<Rightarrow> ((exn + unit) \<times> drive) option" where
  "set_door_lock hw locked d =
     (case run_ioctl hw CDROM_LOCKDOOR (if locked then 1 else 0) d of
        None \<Rightarrow> None
      | Some (Inl e, d') \<Rightarrow> Some (Inl e, d')
      | Some (Inr _, d') \<Rightarrow> Some (Inr (), d'))"

definition lock_door :: "hardware \<Rightarrow> drive \<Rightarrow> ((exn + unit) \<times> drive) option" where
  "lock_door hw d = set_door_lock hw True d"

definition unlock_door :: "hardware \<Rightarrow> drive \<Rightarrow> ((exn + unit) \<times> drive) option" where
  "unlock_door hw d = set_door_lock hw False d"

definition open_tray :: "hardware \<Rightarrow> drive \<Rightarrow> ((exn + unit) \<times> drive) option" where
  "open_tray hw d =
     (case unlock_door hw d of
        None \<Rightarrow> None
      | Some (Inl e, d') \<Rightarrow> Some (Inl e, d')
      | Some (Inr _, d') \<Rightarrow>
          (case run_ioctl hw CDROMEJECT 0 d' of
             None \<Rightarrow> None
           | Some (Inl e, d'') \<Rightarrow> Some (Inl e, d'')
           | Some (Inr _, d'') \<Rightarrow> Some (Inr (), d'')))"

definition close_tray :: "hardware \<Rightarrow> drive \<Rightarrow> ((exn + unit) \<times> drive) option" where
  "close_tray hw d =
     (case run_ioctl hw CDROMCLOSETRAY 0 d of
        None \<Rightarrow> None
      | Some (Inl e, d') \<Rightarrow> Some (Inl e, d')
      | Some (Inr _, d') \<Rightarrow> Some (Inr (), d'))"

text \<open>
  The retry policy of the specification, to compare the operations with. An operation
  that sends \<open>request\<close> with \<open>arg\<close> from the state \<open>d\<close> follows the policy when its
  outcome is this. If the device file cannot be opened, the error of \<open>os.open\<close> is raised
  at once, \<open>EBUSY\<close> like any other. If it can, and the call fails \<open>n\<close> times with
  \<open>EBUSY\<close>, the operation has paused \<open>n\<close> times for 100 ms and tried again; it then
  returns when the call returns, and raises the \<open>OSError\<close> when the call fails with
  another \<open>errno\<close>, the file being left open. On a device that stays busy the operation
  never ends.
\<close>

definition retry_policy ::
  "hardware \<Rightarrow> int \<Rightarrow> int \<Rightarrow> drive \<Rightarrow> (int \<Rightarrow> 'a) \<Rightarrow> ((exn + 'a) \<times> drive) option \<Rightarrow> bool" where
  "retry_policy hw request arg d returned_value outcome \<longleftrightarrow>
     (\<forall>errno. open_device hw (ioctl_calls d) = Fails errno \<longrightarrow>
        outcome = Some (Inl (OSError errno), d))
   \<and> (\<forall>fd n result.
        open_device hw (ioctl_calls d) = Returns fd
        \<and> (\<forall>i<n. ioctl hw (ioctl_calls d + i) request arg = Fails EBUSY)
        \<and> ioctl hw (ioctl_calls d + n) request arg = Returns result \<longrightarrow>
        outcome = Some (Inr (returned_value result),
                        d\<lparr>ioctl_calls := ioctl_calls d + n + 1,
                          slept_ms := slept_ms d + 100 * n\<rparr>))
   \<and> (\<forall>fd n errno.
        open_device hw (ioctl_calls d) = Returns fd
        \<and> (\<forall>i<n. ioctl hw (ioctl_calls d + i) request arg = Fails EBUSY)
        \<and> ioctl hw (ioctl_calls d + n) request arg = Fails errno \<and> errno \<noteq> EBUSY \<longrightarrow>
        outcome = Some (Inl (OSError errno),
                        d\<lparr>ioctl_calls := ioctl_calls d + n + 1,
                          slept_ms := slept_ms d + 100 * n,
                          open_fds := fd # open_fds d\<rparr>))
   \<and> (\<forall>fd.
        open_device hw (ioctl_calls d) = Returns fd
        \<and> (\<forall>i. ioctl hw (ioctl_calls d + i) request arg = Fails EBUSY) \<longrightarrow>
        outcome = None)"

text \<open>The argument \<open>states\<close> of \<open>is_in_state\<close> is a set of integers or one integer.\<close>

datatype states = StateSet "int set" | StateInt int

definition is_in_state ::
  "hardware \<Rightarrow> states \<Rightarrow> bool \<Rightarrow> drive \<Rightarrow> ((exn + bool) \<times> drive) option" where
  "is_in_state hw states invert d =
     (let states = (case states of StateSet S \<Rightarrow> S | StateInt s \<Rightarrow> {s})
      in case get_status hw d of
           None \<Rightarrow> None
         | Some (Inl e, d') \<Rightarrow> Some (Inl e, d')
         | Some (Inr status, d') \<Rightarrow> Some (Inr ((status \<in> states) \<noteq> invert), d'))"

section \<open>mqtt_wrapper.py\<close>

text \<open>
  A message is the triple of topic, payload and options that \<open>enqueue_message\<close> stores;
  its content plays no part. The broker is the environment: the list \<open>outcomes\<close> says,
  for each attempt of the worker to connect or to publish in turn, whether it succeeds
  or raises \<open>MqttError\<close>. The queue holds what the producers have enqueued; a \<open>get\<close> on
  the empty queue waits, and the worker is then in the phase \<open>Waiting\<close> for good. The
  trace records what the worker did.
\<close>

datatype phase = Connecting | Publishing | Waiting

datatype 'm action = Attempt 'm int | Published 'm | Dropped 'm | Slept

record 'm worker =
  current :: "'m option"
  remaining_retries :: int
  message_queue :: "'m list"
  phase :: phase
  trace :: "'m action list"

definition get_message :: "'m worker \<Rightarrow> 'm worker" where
  \<comment> \<open>\<open>topic, payload, kwargs = await self.message_queue.get()\<close>\<close>
  "get_message w =
     (case message_queue w of
        [] \<Rightarrow> w\<lparr>phase := Waiting\<rparr>
      | m # ms \<Rightarrow> w\<lparr>current := Some m, message_queue := ms\<rparr>)"

definition log_action :: "'m action \<Rightarrow> 'm worker \<Rightarrow> 'm worker" where
  "log_action a w = w\<lparr>trace := trace w @ [a]\<rparr>"

definition attempt :: "'m worker \<Rightarrow> 'm worker" where
  "attempt w =
     (case current w of
        None \<Rightarrow> w
      | Some m \<Rightarrow> log_action (Attempt m (remaining_retries w)) w)"

definition on_MqttError :: "'m worker \<Rightarrow> 'm worker" where
  \<comment> \<open>the \<open>except aiomqtt.MqttError\<close> block; the connection is closed by then\<close>
  "on_MqttError w =
     (let w = w\<lparr>remaining_retries := remaining_retries w - 1\<rparr>;
          w = (if remaining_retries w \<le> 0 then
                 (case (current w, message_queue w) of
                    (Some m, _ # _) \<Rightarrow> get_message (log_action (Dropped m) w)
                  | _ \<Rightarrow> get_message w)
               else w)
      in if phase w = Waiting then w else log_action Slept (w\<lparr>phase := Connecting\<rparr>))"

definition on_published :: "int \<Rightarrow> 'm worker \<Rightarrow> 'm worker" where
  \<comment> \<open>the two statements after a \<open>publish\<close> that returned\<close>
  "on_published retries w =
     (let w = (case current w of None \<Rightarrow> w | Some m \<Rightarrow> log_action (Published m) w);
          w = w\<lparr>remaining_retries := retries\<rparr>
      in get_message w)"

fun send_loop_from :: "int \<Rightarrow> bool list \<Rightarrow> 'm worker \<Rightarrow> 'm worker" where
  "send_loop_from retries [] w = w"
| "send_loop_from retries (ok # outcomes) w =
     (case phase w of
        Waiting \<Rightarrow> w
      | Connecting \<Rightarrow>
          if ok then send_loop_from retries outcomes (w\<lparr>phase := Publishing\<rparr>)
          else send_loop_from retries outcomes (on_MqttError (attempt w))
      | Publishing \<Rightarrow>
          if ok then send_loop_from retries outcomes (on_published retries (attempt w))
          else send_loop_from retries outcomes (on_MqttError (attempt w)))"

definition send_loop :: "int \<Rightarrow> bool list \<Rightarrow> 'm list \<Rightarrow> 'm worker" where
  "send_loop retries outcomes queue =
     (let w = get_message \<lparr>current = None, remaining_retries = retries,
                           message_queue = queue, phase = Connecting, trace = []\<rparr>;
          w = w\<lparr>remaining_retries := retries\<rparr>
      in send_loop_from retries outcomes w)"

section \<open>Properties of the decoder\<close>

lemmas text_eval =
  strip_def strip_chars_def rstrip_chars_def upper_def upper_char_def str_whitespace_def
  dquote_def split1_first_def split1_last_def

lemmas int_eval =
  py_int_def int_whitespace_def digit_value_def decimal_def int_max_str_digits_def

lemmas decode_eval =
  get_event_def message_type_def raw_params_def returned_def text_eval int_eval py_truediv_def

text \<open>
  The float nearest to a number differs from it by at most one part in \<open>2^53\<close>, or by
  half the distance \<open>2^-1074\<close> between the smallest doubles.
\<close>

lemma bit_length_bounds:
  "0 < n \<Longrightarrow> 0 < bit_length n \<and> 2 ^ nat (bit_length n - 1) \<le> n \<and> n < 2 ^ nat (bit_length n)"
proof (induction n rule: bit_length.induct)
  case (1 n)
  show ?case
  proof (cases "n div 2 = 0")
    case True
    with "1.prems" have "n = 1" by presburger
    then show ?thesis
      by (simp add: bit_length.simps [of 1] bit_length.simps [of 0])
  next
    case False
    with "1.prems" have pos: "0 < n div 2" by presburger
    from "1.IH" [OF _ pos] "1.prems" have
      IH: "0 < bit_length (n div 2)" "2 ^ nat (bit_length (n div 2) - 1) \<le> n div 2"
        "n div 2 < 2 ^ nat (bit_length (n div 2))"
      by auto
    have eq: "bit_length n = bit_length (n div 2) + 1"
      using "1.prems" by (subst bit_length.simps) simp
    from IH(1) have nat_eq: "nat (bit_length (n div 2)) = Suc (nat (bit_length (n div 2) - 1))"
      by simp
    have "2 ^ nat (bit_length n - 1) \<le> n"
    proof -
      have "(2::int) ^ nat (bit_length (n div 2)) = 2 * 2 ^ nat (bit_length (n div 2) - 1)"
        by (subst nat_eq) simp
      also have "\<dots> \<le> 2 * (n div 2)" using IH(2) by simp
      also have "\<dots> \<le> n" by presburger
      finally show ?thesis by (simp add: eq)
    qed
    moreover have "n < 2 ^ nat (bit_length n)"
    proof -
      from IH(3) have "n div 2 + 1 \<le> 2 ^ nat (bit_length (n div 2))" by simp
      then have "2 * (n div 2) + 2 \<le> 2 * 2 ^ nat (bit_length (n div 2))" by simp
      moreover have "n < 2 * (n div 2) + 2" by presburger
      moreover have "nat (bit_length n) = Suc (nat (bit_length (n div 2)))"
        using IH(1) by (simp add: eq nat_add_distrib)
      ultimately show ?thesis by simp
    qed
    ultimately show ?thesis using IH(1) by (simp add: eq)
  qed
qed

lemma bit_length_nonneg: "0 \<le> bit_length n"
  using bit_length_bounds [of n] by (cases "0 < n") (simp_all add: bit_length.simps [of n])

lemma pow2_powi: "pow2 e = 2 powi e"
  by (simp add: pow2_def power_int_def inverse_eq_divide power_one_over)

lemma pow2_pos: "0 < pow2 e"
  by (simp add: pow2_powi)

lemma floor_log2_le:
  assumes "0 < a"
  shows "pow2 (floor_log2 a) \<le> a"
proof (cases "1 \<le> a")
  case True
  then have pos: "0 < \<lfloor>a\<rfloor>" by simp
  from bit_length_bounds [OF pos] have "2 ^ nat (bit_length \<lfloor>a\<rfloor> - 1) \<le> \<lfloor>a\<rfloor>"
    and "0 < bit_length \<lfloor>a\<rfloor>" by simp_all
  then have "rat_of_int (2 ^ nat (bit_length \<lfloor>a\<rfloor> - 1)) \<le> rat_of_int \<lfloor>a\<rfloor>"
    by (simp only: of_int_le_iff)
  also have "\<dots> \<le> a" by simp
  finally show ?thesis
    using True \<open>0 < bit_length \<lfloor>a\<rfloor>\<close> by (simp add: floor_log2_def pow2_def)
next
  case False
  let ?n = "\<lceil>1 / a\<rceil> - 1"
  let ?k = "bit_length ?n"
  have k: "0 \<le> ?k" by (rule bit_length_nonneg)
  have "?n < 2 ^ nat ?k"
  proof (cases "0 < ?n")
    case True
    from bit_length_bounds [OF this] show ?thesis by simp
  next
    case False
    then have "?n \<le> 0" by simp
    also have "(0::int) < 2 ^ nat ?k" by simp
    finally show ?thesis .
  qed
  then have "\<lceil>1 / a\<rceil> \<le> 2 ^ nat ?k" by simp
  then have "rat_of_int \<lceil>1 / a\<rceil> \<le> rat_of_int (2 ^ nat ?k)"
    by (simp only: of_int_le_iff)
  moreover have "1 / a \<le> rat_of_int \<lceil>1 / a\<rceil>" by (rule le_of_int_ceiling)
  moreover have "rat_of_int (2 ^ nat ?k) = 2 ^ nat ?k" by simp
  ultimately have "1 / a \<le> 2 ^ nat ?k" by linarith
  with assms have "1 \<le> a * 2 ^ nat ?k"
    by (simp add: field_simps)
  then have "1 / 2 ^ nat ?k \<le> a"
    by (simp add: field_simps)
  with False k show ?thesis
    by (cases "?k = 0") (simp_all add: floor_log2_def pow2_def)
qed

lemma round_half_even_error: "\<bar>rat_of_int (round_half_even r) - r\<bar> \<le> 1 / 2"
proof -
  define f where "f = rat_of_int \<lfloor>r\<rfloor>"
  have f: "f \<le> r" "r < f + 1" unfolding f_def by linarith+
  have "round_half_even r = \<lfloor>r\<rfloor> \<and> r - f \<le> 1 / 2
      \<or> round_half_even r = \<lfloor>r\<rfloor> + 1 \<and> 1 / 2 \<le> r - f"
    by (auto simp: round_half_even_def Let_def f_def)
  then show ?thesis
  proof
    assume "round_half_even r = \<lfloor>r\<rfloor> \<and> r - f \<le> 1 / 2"
    then have "rat_of_int (round_half_even r) = f" "r - f \<le> 1 / 2" by (simp_all add: f_def)
    with f show ?thesis by linarith
  next
    assume "round_half_even r = \<lfloor>r\<rfloor> + 1 \<and> 1 / 2 \<le> r - f"
    then have "rat_of_int (round_half_even r) = f + 1" "1 / 2 \<le> r - f" by (simp_all add: f_def)
    with f show ?thesis by linarith
  qed
qed

lemma nearest_double_error:
  "\<bar>nearest_double a - a\<bar> \<le> max (\<bar>a\<bar> / 2 ^ 53) (1 / 2 ^ 1075)"
proof (cases "a = 0")
  case True
  then show ?thesis by (simp add: nearest_double_def)
next
  case False
  define e where "e = max (floor_log2 \<bar>a\<bar> - 52) (- 1074)"
  define m where "m = round_half_even (a / pow2 e)"
  have nd: "nearest_double a = rat_of_int m * pow2 e"
    using False by (simp add: nearest_double_def e_def m_def Let_def)
  have pos: "0 < pow2 e" by (rule pow2_pos)
  have "\<bar>rat_of_int m * pow2 e - a\<bar> = \<bar>rat_of_int m - a / pow2 e\<bar> * pow2 e"
  proof -
    have "rat_of_int m * pow2 e - a = (rat_of_int m - a / pow2 e) * pow2 e"
      using pos by (simp add: field_simps)
    then show ?thesis using pos by (simp add: abs_mult)
  qed
  also have "\<dots> \<le> 1 / 2 * pow2 e"
    using round_half_even_error [of "a / pow2 e"] pos
    by (intro mult_right_mono) (simp_all add: m_def)
  also have "\<dots> \<le> max (\<bar>a\<bar> / 2 ^ 53) (1 / 2 ^ 1075)"
  proof (cases "- 1074 \<le> floor_log2 \<bar>a\<bar> - 52")
    case True
    then have e: "e = floor_log2 \<bar>a\<bar> - 52" by (simp add: e_def)
    have "pow2 e = pow2 (floor_log2 \<bar>a\<bar>) / 2 ^ 52"
      by (simp add: e pow2_powi power_int_diff)
    moreover have "pow2 (floor_log2 \<bar>a\<bar>) \<le> \<bar>a\<bar>"
      using False by (intro floor_log2_le) simp
    ultimately have "1 / 2 * pow2 e \<le> \<bar>a\<bar> / 2 ^ 53"
      by (simp add: field_simps)
    then show ?thesis by simp
  next
    case False
    then have "e = - 1074" by (simp add: e_def)
    then have "1 / 2 * pow2 e = 1 / 2 ^ 1075"
      by (simp add: pow2_def)
    then show ?thesis by simp
  qed
  finally show ?thesis by (simp add: nd)
qed

lemma to_float_value:
  assumes "0 \<le> a" "to_float negative a \<noteq> PosInf" "to_float negative a \<noteq> NegInf"
  shows "float_value (to_float negative a)
           = Some (if negative then - nearest_double a else nearest_double a)"
  using assms by (auto simp: to_float_def float_value_def Let_def split: if_splits)

lemma py_truediv_error:
  assumes "py_truediv a b = Inr f"
  shows "b \<noteq> 0 \<and> (\<exists>x. float_value f = Some x
           \<and> \<bar>x - rat_of_int a / rat_of_int b\<bar>
               \<le> max (\<bar>rat_of_int a / rat_of_int b\<bar> / 2 ^ 53) (1 / 2 ^ 1075))"
proof -
  define negative where "negative \<longleftrightarrow> (a < 0) \<noteq> (b < 0)"
  define m where "m = \<bar>rat_of_int a\<bar> / \<bar>rat_of_int b\<bar>"
  from assms have b: "b \<noteq> 0"
    by (auto simp: py_truediv_def split: if_splits)
  from assms b have f: "f = to_float negative m" "f \<noteq> PosInf" "f \<noteq> NegInf"
    by (auto simp: py_truediv_def negative_def m_def split: pyfloat.splits)
  have m: "0 \<le> m" by (simp add: m_def)
  have quotient: "rat_of_int a / rat_of_int b = (if negative then - m else m)"
    using b by (auto simp: negative_def m_def abs_if)
  from to_float_value [OF m] f
  have "float_value f = Some (if negative then - nearest_double m else nearest_double m)"
    by simp
  moreover have "\<bar>(if negative then - nearest_double m else nearest_double m)
        - rat_of_int a / rat_of_int b\<bar> = \<bar>nearest_double m - m\<bar>"
    unfolding quotient by (simp add: abs_minus_commute)
  moreover have "\<bar>rat_of_int a / rat_of_int b\<bar> = \<bar>m\<bar>"
    unfolding quotient by simp
  ultimately show ?thesis
    using nearest_double_error [of m] b by simp
qed

text \<open>Every constructor returns an event of its own class.\<close>

lemma MessageEvent_init_Inr:
  "MessageEvent_init ps = Inr ev \<Longrightarrow> \<exists>a b c m f p. ev = MessageEvent a b c m f p"
  by (erule MessageEvent_init.elims) auto

lemma ProgressCurrentEvent_init_Inr:
  "ProgressCurrentEvent_init ps = Inr ev \<Longrightarrow> \<exists>a b c. ev = ProgressCurrentEvent a b c"
  by (erule ProgressCurrentEvent_init.elims) auto

lemma ProgressTotalEvent_init_Inr:
  "ProgressTotalEvent_init ps = Inr ev \<Longrightarrow> \<exists>a b c. ev = ProgressTotalEvent a b c"
  by (erule ProgressTotalEvent_init.elims) auto

lemma ProgressValueEvent_init_Inr:
  "ProgressValueEvent_init ps = Inr ev \<Longrightarrow>
     \<exists>c t l cf tf. ev = ProgressValueEvent c t l cf tf
        \<and> py_truediv c l = Inr cf \<and> py_truediv t l = Inr tf"
  by (erule ProgressValueEvent_init.elims) (auto split: sum.splits)

lemma DriveScanEvent_init_Inr:
  "DriveScanEvent_init ps = Inr ev \<Longrightarrow> \<exists>a b c d e f g. ev = DriveScanEvent a b c d e f g"
  by (erule DriveScanEvent_init.elims) auto

lemma TitleCountEvent_init_Inr:
  "TitleCountEvent_init ps = Inr ev \<Longrightarrow> \<exists>a. ev = TitleCountEvent a"
  by (erule TitleCountEvent_init.elims) auto

lemma DiscInfoEvent_init_Inr:
  "DiscInfoEvent_init td ps = Inr ev \<Longrightarrow> \<exists>i. ev = DiscInfoEvent i"
  by (erule DiscInfoEvent_init.elims) (auto split: sum.splits)

lemma TitleInfoEvent_init_Inr:
  "TitleInfoEvent_init td ps = Inr ev \<Longrightarrow> \<exists>i t. ev = TitleInfoEvent i t"
  by (erule TitleInfoEvent_init.elims) (auto split: sum.splits)

lemma StreamInfoEvent_init_Inr:
  "StreamInfoEvent_init td ps = Inr ev \<Longrightarrow> \<exists>i t s. ev = StreamInfoEvent i t s"
  by (erule StreamInfoEvent_init.elims) (auto split: sum.splits)

lemma returned_Some: "returned r = Inr (Some x) \<longleftrightarrow> r = Inr x"
  by (cases r) (auto simp: returned_def)

lemma returned_not_None: "returned r \<noteq> Inr None"
  by (cases r) (auto simp: returned_def)

lemma returned_Inl: "returned r = Inl e \<longleftrightarrow> r = Inl e"
  by (cases r) (auto simp: returned_def)

lemma get_event_Some:
  assumes "get_event td line = Inr (Some ev)"
  shows "MessageEvent_init (raw_params line) = Inr ev
       \<or> ProgressCurrentEvent_init (raw_params line) = Inr ev
       \<or> ProgressTotalEvent_init (raw_params line) = Inr ev
       \<or> ProgressValueEvent_init (raw_params line) = Inr ev
       \<or> DriveScanEvent_init (raw_params line) = Inr ev
       \<or> TitleCountEvent_init (raw_params line) = Inr ev
       \<or> DiscInfoEvent_init td (raw_params line) = Inr ev
       \<or> TitleInfoEvent_init td (raw_params line) = Inr ev
       \<or> StreamInfoEvent_init td (raw_params line) = Inr ev
       \<or> ev = UnknownEvent (raw_params line)"
  using assms unfolding get_event_def Let_def
  by (simp add: returned_Some split: if_splits)



lemma ItemAttribute_of_Inl: "ItemAttribute_of i = Inl e \<Longrightarrow> e = ValueError"
  by (auto simp: ItemAttribute_of_def split: option.splits)




text \<open>
  C5, as amended. The decoder checks no bounds: a \<open>ProgressValueEvent\<close> it returns has
  a limit other than zero, and its two fractions are the floats that Python's division
  gives for \<open>current / limit\<close> and \<open>total / limit\<close>, which are finite and differ from
  these quotients by the rounding to a double at most. Nothing ties \<open>current\<close> or
  \<open>total\<close> to the interval from 0 to the limit.
\<close>

theorem progress_value_scale:
  assumes "get_event td line = Inr (Some (ProgressValueEvent c t l cf tf))"
  shows "l \<noteq> 0 \<and> py_truediv c l = Inr cf \<and> py_truediv t l = Inr tf
       \<and> (\<exists>x y. float_value cf = Some x \<and> float_value tf = Some y
            \<and> \<bar>x - rat_of_int c / rat_of_int l\<bar>
                \<le> max (\<bar>rat_of_int c / rat_of_int l\<bar> / 2 ^ 53) (1 / 2 ^ 1075)
            \<and> \<bar>y - rat_of_int t / rat_of_int l\<bar>
                \<le> max (\<bar>rat_of_int t / rat_of_int l\<bar> / 2 ^ 53) (1 / 2 ^ 1075))"
proof -
  from get_event_Some [OF assms]
  have fractions: "py_truediv c l = Inr cf" "py_truediv t l = Inr tf"
    by (auto dest: MessageEvent_init_Inr ProgressCurrentEvent_init_Inr
        ProgressTotalEvent_init_Inr ProgressValueEvent_init_Inr DriveScanEvent_init_Inr
        TitleCountEvent_init_Inr DiscInfoEvent_init_Inr TitleInfoEvent_init_Inr
        StreamInfoEvent_init_Inr)
  from py_truediv_error [OF fractions(1)] py_truediv_error [OF fractions(2)] fractions
  show ?thesis by blast
qed

theorem progress_value_scale_witness:
  "get_event timedelta_exact ''PRGV:1,2,3''
     = Inr (Some (ProgressValueEvent 1 2 3
                    (Finite (6004799503160661 / 18014398509481984))
                    (Finite (6004799503160661 / 9007199254740992))))
   \<and> (3::int) \<noteq> 0
   \<and> py_truediv 1 3 = Inr (Finite (6004799503160661 / 18014398509481984))
   \<and> py_truediv 2 3 = Inr (Finite (6004799503160661 / 9007199254740992))"
proof -
  have ev: "get_event timedelta_exact ''PRGV:1,2,3''
     = Inr (Some (ProgressValueEvent 1 2 3
                    (Finite (6004799503160661 / 18014398509481984))
                    (Finite (6004799503160661 / 9007199254740992))))"
    by code_simp
  from progress_value_scale [OF ev] ev show ?thesis by simp
qed

text \<open>
  C5 as stated fails: the line \<open>PRGV:5,-7,2\<close> decodes, without any error, to an event
  whose \<open>current\<close> exceeds its limit and whose \<open>total\<close> is negative.
\<close>

theorem progress_value_out_of_bounds:
  "get_event timedelta_exact ''PRGV:5,-7,2''
     = Inr (Some (ProgressValueEvent 5 (- 7) 2 (Finite (5 / 2)) (Finite (- 7 / 2))))
   \<and> \<not> ((0::int) \<le> 5 \<and> (5::int) \<le> 2 \<and> (0::int) \<le> - 7 \<and> (- 7::int) \<le> 2)"
  by code_simp

text \<open>
  C6, as amended. The line \<open>MSG:1,0,0,"Hello world",0\<close> decodes to a \<open>MessageEvent\<close>
  whose \<open>code\<close>, \<open>flags\<close> and \<open>count\<close> are the texts \<open>"1"\<close>, \<open>"0"\<close> and \<open>"0"\<close> as they
  stand in the line, whose message is \<open>Hello world\<close> without the quotes, whose
  \<open>format_code\<close> is the text \<open>"0"\<close>, and which has no further parameters.
\<close>

theorem message_line_fields:
  \<open>get_event td ''MSG:1,0,0,"Hello world",0''
     = Inr (Some (MessageEvent (PyStr ''1'') (PyStr ''0'') (PyStr ''0'')
                    ''Hello world'' ''0'' []))\<close>
  by (simp add: decode_eval)

text \<open>
  C6 as stated fails: the event is not one whose \<open>code\<close>, \<open>flags\<close> and \<open>count\<close> are the
  integers 1, 0 and 0. \<open>MessageEvent.__init__\<close> converts none of them.
\<close>

theorem message_line_code_not_int:
  \<open>get_event timedelta_exact ''MSG:1,0,0,"Hello world",0''
     \<noteq> Inr (Some (MessageEvent (PyInt 1) (PyInt 0) (PyInt 0) ''Hello world'' ''0'' []))\<close>
  by (simp add: decode_eval)

section \<open>Properties of the command runner\<close>

lemmas run_eval =
  run_command_def put_def decode_utf8_def splitlines_def line_breaks_def

text \<open>
  What the decoder returns is never a \<open>StopEvent\<close>, so the two loops of \<open>run_command\<close>
  only append events of the protocol, and a \<open>StopEvent\<close> on the queue comes from the
  end of a run and carries that run's number.
\<close>

lemma get_event_not_Stop: "get_event td line \<noteq> Inr (Some (StopEvent n))"
proof
  assume "get_event td line = Inr (Some (StopEvent n))"
  from get_event_Some [OF this] show False
    by (auto dest: MessageEvent_init_Inr ProgressCurrentEvent_init_Inr
      ProgressTotalEvent_init_Inr ProgressValueEvent_init_Inr DriveScanEvent_init_Inr
      TitleCountEvent_init_Inr DiscInfoEvent_init_Inr TitleInfoEvent_init_Inr
      StreamInfoEvent_init_Inr)
qed

lemma read_loop_appends:
  "read_loop td reads (self, history) = ((self', history'), r) \<Longrightarrow>
   \<exists>more. event_queue self' = event_queue self @ more \<and> history' = history @ more
     \<and> command_counter self' = command_counter self
     \<and> None \<notin> set more \<and> (\<forall>n. Some (StopEvent n) \<notin> set more)"
proof (induction td reads "(self, history)" arbitrary: self history rule: read_loop.induct)
  case (1 td)
  then show ?case by simp
next
  case (2 td reads)
  then show ?case by simp
next
  case (3 td byte_line reads self history)
  show ?case
  proof (cases "decode_utf8 byte_line")
    case (Inl e)
    with "3.prems" show ?thesis by simp
  next
    case (Inr line)
    show ?thesis
    proof (cases "get_event td (rstrip_chars [CHR 0x0D, CHR 0x0A] line)")
      case (Inl e)
      with Inr "3.prems" show ?thesis by simp
    next
      case got: (Inr event)
      show ?thesis
      proof (cases event)
        case None
        with Inr got "3.prems" "3.hyps"(1) show ?thesis by simp
      next
        case (Some ev)
        with Inr got "3.prems"
        have "read_loop td reads (put (Some ev) self, history @ [Some ev]) = ((self', history'), r)"
          by simp
        from "3.hyps"(2) [OF Inr got Some this] obtain more where
          more: "event_queue self' = event_queue (put (Some ev) self) @ more"
            "history' = (history @ [Some ev]) @ more"
            "command_counter self' = command_counter (put (Some ev) self)"
            "None \<notin> set more" "\<forall>n. Some (StopEvent n) \<notin> set more"
          by blast
        from got Some have "\<And>n. ev \<noteq> StopEvent n"
          using get_event_not_Stop by metis
        with more show ?thesis
          by (intro exI [of _ "Some ev # more"]) (auto simp: put_def)
      qed
    qed
  qed
qed

lemma drain_appends:
  "drain td lines (self, history) = ((self', history'), r) \<Longrightarrow>
   \<exists>more. event_queue self' = event_queue self @ more \<and> history' = history @ more
     \<and> command_counter self' = command_counter self
     \<and> (\<forall>n. Some (StopEvent n) \<notin> set more)"
proof (induction td lines "(self, history)" arbitrary: self history rule: drain.induct)
  case (1 td)
  then show ?case by simp
next
  case (2 td line lines self history)
  show ?case
  proof (cases "get_event td (rstrip_chars [CHR 0x0D, CHR 0x0A] line)")
    case (Inl e)
    with "2.prems" show ?thesis by simp
  next
    case (Inr event)
    with "2.prems"
    have "drain td lines (put event self, history @ [event]) = ((self', history'), r)"
      by simp
    from "2.hyps" [OF Inr this] obtain more where
      more: "event_queue self' = event_queue (put event self) @ more"
        "history' = (history @ [event]) @ more"
        "command_counter self' = command_counter (put event self)"
        "\<forall>n. Some (StopEvent n) \<notin> set more"
      by blast
    from Inr have "\<And>n. event \<noteq> Some (StopEvent n)"
      using get_event_not_Stop by metis
    with more show ?thesis
      by (intro exI [of _ "event # more"]) (auto simp: put_def)
  qed
qed

lemma run_command_appends:
  assumes "run_command td proc self = (self', r)"
  shows "command_counter self' = command_counter self + 1
     \<and> (\<exists>more. event_queue self' = event_queue self @ Some (StartEvent (command_counter self)) # more
           \<and> (\<forall>n. Some (StopEvent n) \<in> set more \<longrightarrow> n = command_counter self))"
proof (cases proc)
  case (SpawnError e)
  with assms show ?thesis by (auto simp: run_command_def put_def Let_def)
next
  case (Process reads remaining)
  let ?n = "command_counter self"
  let ?self2 = "put (Some (StartEvent ?n)) (self\<lparr>command_counter := ?n + 1\<rparr>)"
  obtain self3 history3 r3 where
    loop: "read_loop td reads (?self2, [Some (StartEvent ?n)]) = ((self3, history3), r3)"
    by (metis prod.exhaust)
  from read_loop_appends [OF loop] obtain more3 where
    more3: "event_queue self3 = event_queue ?self2 @ more3"
      "command_counter self3 = command_counter ?self2"
      "\<forall>n. Some (StopEvent n) \<notin> set more3"
    by blast
  show ?thesis
  proof (cases r3)
    case (Some e)
    with assms Process loop have "self' = self3" by (simp add: run_command_def Let_def)
    with more3 show ?thesis by (auto simp: put_def)
  next
    case None
    note no_exception = this
    show ?thesis
    proof (cases "decode_utf8 remaining")
      case (Inl e)
      with assms Process loop None have "self' = self3" by (simp add: run_command_def Let_def)
      with more3 show ?thesis by (auto simp: put_def)
    next
      case (Inr stdout)
      obtain self4 history4 r4 where
        rest: "drain td (splitlines stdout) (self3, history3) = ((self4, history4), r4)"
        by (metis prod.exhaust)
      from drain_appends [OF rest] obtain more4 where
        more4: "event_queue self4 = event_queue self3 @ more4"
          "command_counter self4 = command_counter self3"
          "\<forall>n. Some (StopEvent n) \<notin> set more4"
        by blast
      show ?thesis
      proof (cases r4)
        case (Some e)
        with assms Process loop no_exception Inr rest have "self' = self4"
          by (simp add: run_command_def Let_def)
        with more3 more4 show ?thesis by (auto simp: put_def)
      next
        case None
        with assms Process loop no_exception Inr rest
        have "self' = put (Some (StopEvent ?n)) self4"
          by (simp add: run_command_def Let_def)
        with more3 more4 show ?thesis by (auto simp: put_def)
      qed
    qed
  qed
qed

lemma run_commands_appends:
  "\<exists>more. event_queue (run_commands td procs self) = event_queue self @ more
     \<and> command_counter self \<le> command_counter (run_commands td procs self)
     \<and> (\<forall>n. Some (StopEvent n) \<in> set more \<longrightarrow> command_counter self \<le> n)"
proof (induction procs arbitrary: self)
  case Nil
  show ?case by simp
next
  case (Cons proc procs)
  obtain self' r where run: "run_command td proc self = (self', r)"
    by (metis prod.exhaust)
  from run_command_appends [OF run] obtain more1 where
    one: "command_counter self' = command_counter self + 1"
      "event_queue self' = event_queue self @ Some (StartEvent (command_counter self)) # more1"
      "\<forall>n. Some (StopEvent n) \<in> set more1 \<longrightarrow> n = command_counter self"
    by blast
  from Cons.IH [of self'] obtain more2 where
    two: "event_queue (run_commands td procs self') = event_queue self' @ more2"
      "command_counter self' \<le> command_counter (run_commands td procs self')"
      "\<forall>n. Some (StopEvent n) \<in> set more2 \<longrightarrow> command_counter self' \<le> n"
    by blast
  show ?case
  proof (intro exI conjI allI impI)
    show "event_queue (run_commands td (proc # procs) self)
        = event_queue self @ (Some (StartEvent (command_counter self)) # more1 @ more2)"
      using run one two by simp
    show "command_counter self \<le> command_counter (run_commands td (proc # procs) self)"
      using run one two by simp
    fix n
    assume "Some (StopEvent n) \<in> set (Some (StartEvent (command_counter self)) # more1 @ more2)"
    then show "command_counter self \<le> n"
      using one two by auto
  qed
qed






text \<open>
  C9. When \<open>create_subprocess_exec\<close> raises, \<open>run_command\<close> ends with that exception
  after it has incremented \<open>command_counter\<close> and put the \<open>StartEvent\<close> of the new
  command number on the queue. Whatever commands run on the source afterwards, no
  \<open>StopEvent\<close> with that number is ever put behind it.
\<close>

theorem spawn_failure_leaves_start_without_stop:
  "run_command td (SpawnError e) self =
     (self\<lparr>command_counter := command_counter self + 1,
           event_queue := event_queue self @ [Some (StartEvent (command_counter self))]\<rparr>,
      Inl e)
   \<and> (\<forall>procs. \<exists>more.
        event_queue (run_commands td procs (fst (run_command td (SpawnError e) self)))
          = event_queue self @ Some (StartEvent (command_counter self)) # more
        \<and> Some (StopEvent (command_counter self)) \<notin> set more)"
proof (intro conjI allI)
  show first: "run_command td (SpawnError e) self =
     (self\<lparr>command_counter := command_counter self + 1,
           event_queue := event_queue self @ [Some (StartEvent (command_counter self))]\<rparr>,
      Inl e)"
    by (simp add: run_command_def put_def Let_def)
  fix procs
  let ?self' = "fst (run_command td (SpawnError e) self)"
  from run_commands_appends [of td procs ?self'] obtain more where
    more: "event_queue (run_commands td procs ?self') = event_queue ?self' @ more"
      "\<forall>n. Some (StopEvent n) \<in> set more \<longrightarrow> command_counter ?self' \<le> n"
    by blast
  from more(2) first have "Some (StopEvent (command_counter self)) \<notin> set more"
    by auto
  with more(1) first
  show "\<exists>more. event_queue (run_commands td procs ?self')
          = event_queue self @ Some (StartEvent (command_counter self)) # more
        \<and> Some (StopEvent (command_counter self)) \<notin> set more"
    by simp
qed

text \<open>
  C4 fails on the code. The loop over the output that is left after the process has
  exited does not test the decoded event: for a blank line it puts \<open>None\<close> on the queue
  and appends it to the history, where the loop before the exit skips such a line. Here
  the process prints one blank line that is read before it exits, and leaves
  \<open>TCOUT:3\<close> and a blank line to \<open>communicate\<close>.
\<close>

theorem drain_puts_None:
  \<open>run_command timedelta_exact
      (Process [Read (Utf8 [CHR 0x0A])] (Utf8 (''TCOUT:3'' @ [CHR 0x0A, CHR 0x0A])))
      \<lparr>command_counter = 0, event_queue = []\<rparr>
   = (\<lparr>command_counter = 1,
       event_queue = [Some (StartEvent 0), Some (TitleCountEvent (PyStr ''3'')), None,
                      Some (StopEvent 0)]\<rparr>,
      Inr (0, [Some (StartEvent 0), Some (TitleCountEvent (PyStr ''3'')), None,
               Some (StopEvent 0)]))\<close>
  by (simp add: run_eval decode_eval)







section \<open>Properties of \<open>history_to_dict\<close>\<close>

text \<open>
  The keys \<open>"Titles"\<close> and \<open>"Streams"\<close> never meet an attribute name: an \<open>InfoEvent\<close>
  is named after a member of \<open>ItemAttribute\<close>, and no member has such a name.
\<close>

lemma fixed_keys_are_no_attribute_names:
  "''Titles'' \<notin> set (map (snd \<circ> snd) ItemAttribute_members)
   \<and> ''Streams'' \<notin> set (map (snd \<circ> snd) ItemAttribute_members)"
  by (simp add: ItemAttribute_members_def)

lemma ItemAttribute_of_name:
  "ItemAttribute_of i = Inr (attribute, name) \<Longrightarrow>
   name \<in> set (map (snd \<circ> snd) ItemAttribute_members)"
  by (auto simp: ItemAttribute_of_def split: option.splits dest!: map_of_SomeD intro: rev_image_eqI)

lemma InfoEvent_init_item_name:
  assumes "InfoEvent_init td item_id_text code_text value_texts = Inr event"
  shows "item_name event \<in> set (map (snd \<circ> snd) ItemAttribute_members)"
proof -
  from assms obtain i attribute name where
    "ItemAttribute_of i = Inr (attribute, name)" "item_name event = name"
    by (auto simp: InfoEvent_init_def Let_def split: sum.splits)
  from ItemAttribute_of_name [OF this(1)] this(2) show ?thesis by simp
qed

lemma map_filter_snoc:
  "List.map_filter f (xs @ [x]) =
     List.map_filter f xs @ (case f x of None \<Rightarrow> [] | Some y \<Rightarrow> [y])"
  by (induction xs) (auto split: option.splits)

lemma latest_snoc: "latest (items @ [(k, v)]) = (latest items)(k \<mapsto> v)"
  by (simp add: latest_def fun_eq_iff)

lemma latest_Nil: "latest [] = Map.empty"
  by (simp add: latest_def)

lemma map_of_None_iff: "map_of d k = None \<longleftrightarrow> k \<notin> fst ` set d"
  by (simp add: map_of_eq_None_iff)

lemma unmentioned_title:
  assumes "n \<notin> set (List.map_filter title_of history)"
  shows "List.map_filter (title_item n) history = []"
    and "List.map_filter (stream_of n) history = []"
  using assms
  by (induction history)
     (auto split: option.splits elim: title_of.elims title_item.elims stream_of.elims)

lemma unmentioned_stream:
  assumes "s \<notin> set (List.map_filter (stream_of t) history)"
  shows "List.map_filter (stream_item t s) history = []"
  using assms
  by (induction history)
     (auto split: option.splits if_splits elim: stream_item.elims stream_of.elims)

lemma title_collected_new:
  "n \<notin> set (List.map_filter title_of history) \<Longrightarrow> title_collected history n new_title"
  by (simp add: title_collected_def new_title_def unmentioned_title latest_Nil)

lemma title_collected_other:
  assumes "title_collected history t title"
    and "title_item t x = None" "stream_of t x = None" "\<And>s. stream_item t s x = None"
  shows "title_collected (history @ [x]) t title"
  using assms by (simp add: title_collected_def map_filter_snoc)

lemma title_collected_title:
  assumes "title_collected history n title"
  shows "title_collected (history @ [Some (TitleInfoEvent event n)]) n
           (title\<lparr>title_attributes :=
              AList.update (item_name event) (item_value event) (title_attributes title)\<rparr>)"
  using assms
  by (simp add: title_collected_def map_filter_snoc latest_snoc update_conv')

lemma title_collected_stream:
  assumes inv: "title_collected history n title"
  shows "title_collected (history @ [Some (StreamInfoEvent event n s)]) n
           (title\<lparr>Streams :=
              AList.update s
                (AList.update (item_name event) (item_value event)
                   (dict_get (Streams title) s []))
                (Streams title)\<rparr>)"
proof -
  let ?x = "Some (StreamInfoEvent event n s)"
  let ?old = "dict_get (Streams title) s []"
  let ?new = "AList.update (item_name event) (item_value event) ?old"
  from inv have attrs: "map_of (title_attributes title)
        = latest (List.map_filter (title_item n) history)"
    and keys: "distinct (map fst (Streams title))"
      "fst ` set (Streams title) = set (List.map_filter (stream_of n) history)"
    and streams: "\<And>k stream. map_of (Streams title) k = Some stream \<Longrightarrow>
        map_of stream = latest (List.map_filter (stream_item n k) history)"
    by (simp_all add: title_collected_def)
  have old: "map_of ?old = latest (List.map_filter (stream_item n s) history)"
  proof (cases "map_of (Streams title) s")
    case None
    then have "s \<notin> set (List.map_filter (stream_of n) history)"
      using keys by (simp add: map_of_None_iff)
    from unmentioned_stream [OF this] None show ?thesis
      by (simp add: dict_get_def latest_Nil)
  next
    case (Some stream)
    with streams [OF Some] show ?thesis by (simp add: dict_get_def)
  qed
  show ?thesis
    unfolding title_collected_def
  proof (intro conjI allI impI)
    show "map_of (title_attributes (title\<lparr>Streams := AList.update s ?new (Streams title)\<rparr>))
        = latest (List.map_filter (title_item n) (history @ [?x]))"
      using attrs by (simp add: map_filter_snoc)
    show "distinct (map fst (Streams (title\<lparr>Streams := AList.update s ?new (Streams title)\<rparr>)))"
      using keys by (simp add: distinct_update)
    show "fst ` set (Streams (title\<lparr>Streams := AList.update s ?new (Streams title)\<rparr>))
        = set (List.map_filter (stream_of n) (history @ [?x]))"
      using keys by (simp add: map_filter_snoc dom_update)
  next
    fix k stream
    assume a: "map_of (Streams (title\<lparr>Streams := AList.update s ?new (Streams title)\<rparr>)) k
        = Some stream"
    show "map_of stream = latest (List.map_filter (stream_item n k) (history @ [?x]))"
    proof (cases "k = s")
      case True
      with a have "stream = ?new" by (simp add: update_conv')
      with True old show ?thesis
        by (simp add: map_filter_snoc latest_snoc update_conv')
    next
      case False
      with a have "map_of (Streams title) k = Some stream" by (simp add: update_conv')
      from streams [OF this] False show ?thesis
        by (simp add: map_filter_snoc)
    qed
  qed
qed

lemma collected_Nil: "collected [] \<lparr>info_attributes = [], Titles = []\<rparr>"
  by (simp add: collected_def latest_Nil)

lemma collected_other:
  assumes "collected history info"
    and "disc_item x = None" "title_of x = None"
    and "\<And>t. title_item t x = None" "\<And>t. stream_of t x = None"
    and "\<And>t s. stream_item t s x = None"
  shows "collected (history @ [x]) info"
  using assms by (simp add: collected_def map_filter_snoc title_collected_other)

lemma collected_disc:
  assumes "collected history info"
  shows "collected (history @ [Some (DiscInfoEvent event)])
           (collect info (Some (DiscInfoEvent event)))"
  using assms
  by (simp add: collected_def map_filter_snoc latest_snoc update_conv' title_collected_other)

lemma collected_update_title:
  assumes inv: "collected history info"
    and x: "disc_item x = None" "title_of x = Some n"
      "\<And>t. t \<noteq> n \<Longrightarrow> title_item t x = None" "\<And>t. t \<noteq> n \<Longrightarrow> stream_of t x = None"
      "\<And>t s. t \<noteq> n \<Longrightarrow> stream_item t s x = None"
    and new: "title_collected history n (dict_get (Titles info) n new_title) \<Longrightarrow>
        title_collected (history @ [x]) n title'"
  shows "collected (history @ [x]) (info\<lparr>Titles := AList.update n title' (Titles info)\<rparr>)"
proof -
  from inv have attrs: "map_of (info_attributes info) = latest (List.map_filter disc_item history)"
    and keys: "distinct (map fst (Titles info))"
      "fst ` set (Titles info) = set (List.map_filter title_of history)"
    and titles: "\<And>t title. map_of (Titles info) t = Some title \<Longrightarrow>
        title_collected history t title"
    by (simp_all add: collected_def)
  have "title_collected history n (dict_get (Titles info) n new_title)"
  proof (cases "map_of (Titles info) n")
    case None
    then have "n \<notin> set (List.map_filter title_of history)"
      using keys by (simp add: map_of_None_iff)
    from title_collected_new [OF this] None show ?thesis
      by (simp add: dict_get_def)
  next
    case (Some title)
    with titles [OF Some] show ?thesis by (simp add: dict_get_def)
  qed
  from new [OF this] have new': "title_collected (history @ [x]) n title'" .
  show ?thesis
    unfolding collected_def
  proof (intro conjI allI impI)
    show "map_of (info_attributes (info\<lparr>Titles := AList.update n title' (Titles info)\<rparr>))
        = latest (List.map_filter disc_item (history @ [x]))"
      using attrs x by (simp add: map_filter_snoc)
    show "distinct (map fst (Titles (info\<lparr>Titles := AList.update n title' (Titles info)\<rparr>)))"
      using keys by (simp add: distinct_update)
    show "fst ` set (Titles (info\<lparr>Titles := AList.update n title' (Titles info)\<rparr>))
        = set (List.map_filter title_of (history @ [x]))"
      using keys x by (simp add: map_filter_snoc dom_update)
  next
    fix t title
    assume a: "map_of (Titles (info\<lparr>Titles := AList.update n title' (Titles info)\<rparr>)) t
        = Some title"
    show "title_collected (history @ [x]) t title"
    proof (cases "t = n")
      case True
      with a have "title = title'" by (simp add: update_conv')
      with True new' show ?thesis by simp
    next
      case False
      with a have "map_of (Titles info) t = Some title" by (simp add: update_conv')
      from titles [OF this] False x show ?thesis
        by (intro title_collected_other) simp_all
    qed
  qed
qed

lemma collected_collect:
  assumes inv: "collected history info"
  shows "collected (history @ [x]) (collect info x)"
proof (cases x)
  case None
  with inv show ?thesis by (simp add: collected_other)
next
  case (Some event)
  show ?thesis
  proof (cases event)
    case (DiscInfoEvent e)
    with Some inv show ?thesis by (simp only: collected_disc)
  next
    case (TitleInfoEvent e n)
    have "collected (history @ [Some (TitleInfoEvent e n)])
       (info\<lparr>Titles := AList.update n
          ((dict_get (Titles info) n new_title)\<lparr>title_attributes :=
              AList.update (item_name e) (item_value e)
                (title_attributes (dict_get (Titles info) n new_title))\<rparr>)
          (Titles info)\<rparr>)"
      by (rule collected_update_title [OF inv]) (simp_all add: title_collected_title)
    with Some TitleInfoEvent show ?thesis by (simp add: Let_def)
  next
    case (StreamInfoEvent e n s)
    have "collected (history @ [Some (StreamInfoEvent e n s)])
       (info\<lparr>Titles := AList.update n
          ((dict_get (Titles info) n new_title)\<lparr>Streams :=
              AList.update s
                (AList.update (item_name e) (item_value e)
                   (dict_get (Streams (dict_get (Titles info) n new_title)) s []))
                (Streams (dict_get (Titles info) n new_title))\<rparr>)
          (Titles info)\<rparr>)"
      by (rule collected_update_title [OF inv]) (simp_all add: title_collected_stream)
    with Some StreamInfoEvent show ?thesis by (simp add: Let_def)
  qed (use Some inv in \<open>simp_all add: collected_other\<close>)
qed

lemma collected_foldl:
  "collected history (foldl collect \<lparr>info_attributes = [], Titles = []\<rparr> history)"
proof (induction history rule: rev_induct)
  case Nil
  show ?case by (simp add: collected_Nil)
next
  case (snoc x history)
  then show ?case by (simp add: collected_collect)
qed

lemma values_by_sorted_keys_eq:
  assumes "distinct (map fst d)" "fst ` set d = set ks"
  shows "values_by_sorted_keys d = map (\<lambda>k. the (map_of d k)) (sort (remdups ks))"
    and "\<And>k. k \<in> set ks \<Longrightarrow> \<exists>v. map_of d k = Some v"
proof -
  show found: "\<exists>v. map_of d k = Some v" if "k \<in> set ks" for k
    using that assms(2) by (metis map_of_None_iff not_None_eq)
  have "sort (map fst d) = sort (remdups ks)"
    using assms by (intro sorted_distinct_set_unique) simp_all
  moreover have "List.map_filter (map_of d) ks' = map (\<lambda>k. the (map_of d k)) ks'"
    if "set ks' \<subseteq> set ks" for ks'
    using that
  proof (induction ks')
    case Nil
    show ?case by simp
  next
    case (Cons k ks')
    then obtain v where "map_of d k = Some v" using found by auto
    with Cons show ?case by simp
  qed
  ultimately show "values_by_sorted_keys d = map (\<lambda>k. the (map_of d k)) (sort (remdups ks))"
    by (simp add: values_by_sorted_keys_def)
qed

lemma list_all2_map_same:
  "(\<And>k. k \<in> set ks \<Longrightarrow> P (f k) k) \<Longrightarrow> list_all2 P (map f ks) ks"
  by (induction ks) simp_all

text \<open>
  C7. For every history, in whatever order its events arrived: the top level of the
  result maps each attribute name of a \<open>DiscInfoEvent\<close> to the latest value given for
  it, and to nothing else; the list of titles has one entry for each title number of
  the history, in ascending order of the numbers, and the entry of a title maps the
  attribute names of its \<open>TitleInfoEvent\<close>s to their latest values; its list of
  streams has one entry for each stream number of the title, in ascending order, which
  maps the attribute names of the \<open>StreamInfoEvent\<close>s of that title and stream to their
  latest values. In particular a history of one \<open>DiscInfoEvent\<close>, one \<open>TitleInfoEvent\<close>
  of title 0 and one \<open>StreamInfoEvent\<close> of title 0 and stream 0 gives the attribute of
  the first at the top, one title with the attribute of the second, and in it one
  stream with the attribute of the third.
\<close>

theorem history_to_dict_aggregates:
  "map_of (info_attributes (history_to_dict history))
     = latest (List.map_filter disc_item history)
   \<and> list_all2
       (\<lambda>title t.
          map_of (title_attributes title) = latest (List.map_filter (title_item t) history)
          \<and> list_all2
              (\<lambda>stream s. map_of stream = latest (List.map_filter (stream_item t s) history))
              (Streams title) (stream_numbers history t))
       (Titles (history_to_dict history)) (title_numbers history)
   \<and> sorted_wrt (<) (title_numbers history)
   \<and> (\<forall>t. sorted_wrt (<) (stream_numbers history t))
   \<and> history_to_dict
       [Some (DiscInfoEvent disc), Some (TitleInfoEvent title 0),
        Some (StreamInfoEvent stream 0 0)]
     = \<lparr>info_attributes = [(item_name disc, item_value disc)],
        Titles = [\<lparr>title_attributes = [(item_name title, item_value title)],
                   Streams = [[(item_name stream, item_value stream)]]\<rparr>]\<rparr>"
proof (intro conjI allI)
  let ?info = "foldl collect \<lparr>info_attributes = [], Titles = []\<rparr> history"
  have inv: "collected history ?info" by (rule collected_foldl)
  then have attrs: "map_of (info_attributes ?info) = latest (List.map_filter disc_item history)"
    and keys: "distinct (map fst (Titles ?info))"
      "fst ` set (Titles ?info) = set (List.map_filter title_of history)"
    and titles: "\<And>t title. map_of (Titles ?info) t = Some title \<Longrightarrow>
        title_collected history t title"
    by (simp_all add: collected_def)
  show "map_of (info_attributes (history_to_dict history))
      = latest (List.map_filter disc_item history)"
    using attrs by (simp add: history_to_dict_def Let_def)
  have "Titles (history_to_dict history)
      = map (\<lambda>t. title_to_lists (the (map_of (Titles ?info) t))) (title_numbers history)"
    by (simp add: history_to_dict_def Let_def title_numbers_def
        values_by_sorted_keys_eq(1) [OF keys] comp_def)
  moreover have "map_of (title_attributes (title_to_lists (the (map_of (Titles ?info) t))))
        = latest (List.map_filter (title_item t) history)
      \<and> list_all2
          (\<lambda>stream s. map_of stream = latest (List.map_filter (stream_item t s) history))
          (Streams (title_to_lists (the (map_of (Titles ?info) t)))) (stream_numbers history t)"
    if "t \<in> set (title_numbers history)" for t
  proof -
    from that have "t \<in> set (List.map_filter title_of history)"
      by (simp add: title_numbers_def)
    from values_by_sorted_keys_eq(2) [OF keys this] obtain title where
      title: "map_of (Titles ?info) t = Some title" by blast
    from titles [OF this] have
      t_attrs: "map_of (title_attributes title)
          = latest (List.map_filter (title_item t) history)"
      and s_keys: "distinct (map fst (Streams title))"
        "fst ` set (Streams title) = set (List.map_filter (stream_of t) history)"
      and streams: "\<And>s stream. map_of (Streams title) s = Some stream \<Longrightarrow>
          map_of stream = latest (List.map_filter (stream_item t s) history)"
      by (simp_all add: title_collected_def)
    have "Streams (title_to_lists title)
        = map (\<lambda>s. the (map_of (Streams title) s)) (stream_numbers history t)"
      by (simp add: title_to_lists_def stream_numbers_def
          values_by_sorted_keys_eq(1) [OF s_keys])
    moreover have "map_of (the (map_of (Streams title) s))
        = latest (List.map_filter (stream_item t s) history)"
      if "s \<in> set (stream_numbers history t)" for s
    proof -
      from that have "s \<in> set (List.map_filter (stream_of t) history)"
        by (simp add: stream_numbers_def)
      from values_by_sorted_keys_eq(2) [OF s_keys this] obtain stream where
        "map_of (Streams title) s = Some stream" by blast
      with streams [OF this] show ?thesis by simp
    qed
    ultimately have "list_all2
          (\<lambda>stream s. map_of stream = latest (List.map_filter (stream_item t s) history))
          (Streams (title_to_lists title)) (stream_numbers history t)"
      by (simp add: list_all2_map_same)
    with t_attrs title show ?thesis by (simp add: title_to_lists_def)
  qed
  ultimately show "list_all2
       (\<lambda>title t.
          map_of (title_attributes title) = latest (List.map_filter (title_item t) history)
          \<and> list_all2
              (\<lambda>stream s. map_of stream = latest (List.map_filter (stream_item t s) history))
              (Streams title) (stream_numbers history t))
       (Titles (history_to_dict history)) (title_numbers history)"
    by (simp add: list_all2_map_same)
  show "sorted_wrt (<) (title_numbers history)"
    by (simp add: title_numbers_def strict_sorted_iff)
  show "sorted_wrt (<) (stream_numbers history t)" for t
    by (simp add: stream_numbers_def strict_sorted_iff)
  show "history_to_dict
       [Some (DiscInfoEvent disc), Some (TitleInfoEvent title 0),
        Some (StreamInfoEvent stream 0 0)]
     = \<lparr>info_attributes = [(item_name disc, item_value disc)],
        Titles = [\<lparr>title_attributes = [(item_name title, item_value title)],
                   Streams = [[(item_name stream, item_value stream)]]\<rparr>]\<rparr>"
    by (simp add: history_to_dict_def Let_def dict_get_def new_title_def
        values_by_sorted_keys_def title_to_lists_def)
qed

theorem history_to_dict_aggregates_witness:
  "history_to_dict
     [Some (StreamInfoEvent (InfoEvent.make 2 ''Name'' 0 [''b''] ''b'' (PyStr ''b'')) 1 2),
      Some (TitleInfoEvent (InfoEvent.make 2 ''Name'' 0 [''second''] ''second'' (PyStr ''second'')) 1),
      Some (StreamInfoEvent (InfoEvent.make 2 ''Name'' 0 [''a''] ''a'' (PyStr ''a'')) 0 0),
      Some (DiscInfoEvent (InfoEvent.make 2 ''Name'' 0 [''disc''] ''disc'' (PyStr ''disc''))),
      None,
      Some (TitleInfoEvent (InfoEvent.make 8 ''ChapterCount'' 0 [''12''] ''12'' (PyInt 12)) 0)]
   = \<lparr>info_attributes = [(''Name'', PyStr ''disc'' :: timedelta pyval)],
      Titles = [\<lparr>title_attributes = [(''ChapterCount'', PyInt 12)],
                 Streams = [[(''Name'', PyStr ''a'')]]\<rparr>,
                \<lparr>title_attributes = [(''Name'', PyStr ''second'')],
                 Streams = [[(''Name'', PyStr ''b'')]]\<rparr>]\<rparr>
   \<and> title_numbers
     [Some (StreamInfoEvent (InfoEvent.make 2 ''Name'' 0 [''b''] ''b'' (PyStr ''b'')) 1 2),
      Some (TitleInfoEvent (InfoEvent.make 2 ''Name'' 0 [''second''] ''second'' (PyStr ''second'')) 1),
      Some (StreamInfoEvent (InfoEvent.make 2 ''Name'' 0 [''a''] ''a'' (PyStr ''a'')) 0 0),
      Some (DiscInfoEvent (InfoEvent.make 2 ''Name'' 0 [''disc''] ''disc'' (PyStr ''disc''))),
      None,
      Some (TitleInfoEvent (InfoEvent.make 8 ''ChapterCount'' 0 [''12''] ''12'' (PyInt 12 :: timedelta pyval)) 0)]
   = [0, 1]"
  using history_to_dict_aggregates
    [of "[Some (StreamInfoEvent (InfoEvent.make 2 ''Name'' 0 [''b''] ''b'' (PyStr ''b'')) 1 2),
      Some (TitleInfoEvent (InfoEvent.make 2 ''Name'' 0 [''second''] ''second'' (PyStr ''second'')) 1),
      Some (StreamInfoEvent (InfoEvent.make 2 ''Name'' 0 [''a''] ''a'' (PyStr ''a'')) 0 0),
      Some (DiscInfoEvent (InfoEvent.make 2 ''Name'' 0 [''disc''] ''disc'' (PyStr ''disc''))),
      None,
      Some (TitleInfoEvent (InfoEvent.make 8 ''ChapterCount'' 0 [''12''] ''12'' (PyInt 12 :: timedelta pyval)) 0)]"]
  by (simp add: history_to_dict_def Let_def dict_get_def new_title_def
      values_by_sorted_keys_def title_to_lists_def title_numbers_def InfoEvent.defs)

section \<open>Properties of the drive\<close>

lemma ioctl_loop_busy:
  "(\<forall>i<n. ioctl hw (ioctl_calls d + i) request arg = Fails EBUSY) \<Longrightarrow>
   ioctl_loop hw request arg d =
   ioctl_loop hw request arg
     (d\<lparr>ioctl_calls := ioctl_calls d + n, slept_ms := slept_ms d + 100 * n\<rparr>)"
proof (induction n arbitrary: d)
  case 0
  then show ?case by simp
next
  case (Suc n)
  let ?d1 = "d\<lparr>ioctl_calls := ioctl_calls d + 1, slept_ms := slept_ms d + 100\<rparr>"
  from Suc.prems have first: "ioctl hw (ioctl_calls d) request arg = Fails EBUSY"
    by (metis add.right_neutral zero_less_Suc)
  from Suc.prems have rest: "\<forall>i<n. ioctl hw (ioctl_calls ?d1 + i) request arg = Fails EBUSY"
    by (metis Suc_less_eq add_Suc_right add_Suc_shift drive.select_convs(1) drive.surjective
        drive.update_convs(1) drive.update_convs(2) plus_1_eq_Suc add.commute)
  have "ioctl_loop hw request arg d = ioctl_loop hw request arg ?d1"
    by (subst ioctl_loop.simps) (simp add: first)
  also have "\<dots> = ioctl_loop hw request arg
      (?d1\<lparr>ioctl_calls := ioctl_calls ?d1 + n, slept_ms := slept_ms ?d1 + 100 * n\<rparr>)"
    by (rule Suc.IH [OF rest])
  finally show ?case by (simp add: add.assoc)
qed

lemma ioctl_loop_Some_not_busy:
  assumes "ioctl_loop hw request arg d = Some y"
  shows "\<exists>i. ioctl hw (ioctl_calls d + i) request arg \<noteq> Fails EBUSY"
proof (rule ioctl_loop.raw_induct
    [where P = "\<lambda>hw request arg d y. \<exists>i. ioctl hw (ioctl_calls d + i) request arg \<noteq> Fails EBUSY",
     OF _ assms])
  fix loop :: "hardware \<Rightarrow> int \<Rightarrow> int \<Rightarrow> drive \<Rightarrow> ((exn + int) \<times> drive) option"
    and hw request arg d y
  assume IH: "\<And>hw request arg d y. loop hw request arg d = Some y \<Longrightarrow>
         \<exists>i. ioctl hw (ioctl_calls d + i) request arg \<noteq> Fails EBUSY"
    and body: "(case ioctl hw (ioctl_calls d) request arg of
        Returns result \<Rightarrow> Some (Inr result, d\<lparr>ioctl_calls := ioctl_calls d + 1\<rparr>)
      | Fails errno \<Rightarrow>
          if errno = EBUSY then
            loop hw request arg
              (d\<lparr>ioctl_calls := ioctl_calls d + 1, slept_ms := slept_ms d + 100\<rparr>)
          else Some (Inl (OSError errno), d\<lparr>ioctl_calls := ioctl_calls d + 1\<rparr>)) = Some y"
  show "\<exists>i. ioctl hw (ioctl_calls d + i) request arg \<noteq> Fails EBUSY"
  proof (cases "ioctl hw (ioctl_calls d) request arg = Fails EBUSY")
    case True
    with body have
      "loop hw request arg
         (d\<lparr>ioctl_calls := ioctl_calls d + 1, slept_ms := slept_ms d + 100\<rparr>) = Some y"
      by simp
    from IH [OF this] obtain i where
      "ioctl hw (ioctl_calls d + 1 + i) request arg \<noteq> Fails EBUSY" by auto
    then have "ioctl hw (ioctl_calls d + (1 + i)) request arg \<noteq> Fails EBUSY"
      by (simp add: add.assoc)
    then show ?thesis by blast
  next
    case False
    then have "ioctl hw (ioctl_calls d + 0) request arg \<noteq> Fails EBUSY" by simp
    then show ?thesis by blast
  qed
qed

lemma ioctl_loop_always_busy:
  assumes "\<forall>i. ioctl hw (ioctl_calls d + i) request arg = Fails EBUSY"
  shows "ioctl_loop hw request arg d = None"
proof (cases "ioctl_loop hw request arg d")
  case None
  then show ?thesis .
next
  case (Some y)
  from ioctl_loop_Some_not_busy [OF this] assms show ?thesis by blast
qed

lemma run_ioctl_open_fails:
  "open_device hw (ioctl_calls d) = Fails errno \<Longrightarrow>
   run_ioctl hw request arg d = Some (Inl (OSError errno), d)"
  by (simp add: run_ioctl_def)

lemma run_ioctl_returns:
  assumes "open_device hw (ioctl_calls d) = Returns fd"
    and "\<forall>i<n. ioctl hw (ioctl_calls d + i) request arg = Fails EBUSY"
    and "ioctl hw (ioctl_calls d + n) request arg = Returns result"
  shows "run_ioctl hw request arg d =
           Some (Inr result,
                 d\<lparr>ioctl_calls := ioctl_calls d + n + 1, slept_ms := slept_ms d + 100 * n\<rparr>)"
proof -
  let ?d0 = "d\<lparr>open_fds := fd # open_fds d\<rparr>"
  let ?dn = "?d0\<lparr>ioctl_calls := ioctl_calls ?d0 + n, slept_ms := slept_ms ?d0 + 100 * n\<rparr>"
  from assms(2) have "ioctl_loop hw request arg ?d0 = ioctl_loop hw request arg ?dn"
    by (intro ioctl_loop_busy) simp
  also from assms(3) have "\<dots> = Some (Inr result, ?dn\<lparr>ioctl_calls := ioctl_calls ?dn + 1\<rparr>)"
    by (subst ioctl_loop.simps) simp
  finally show ?thesis
    by (simp add: run_ioctl_def assms(1))
qed

lemma run_ioctl_raises:
  assumes "open_device hw (ioctl_calls d) = Returns fd"
    and "\<forall>i<n. ioctl hw (ioctl_calls d + i) request arg = Fails EBUSY"
    and "ioctl hw (ioctl_calls d + n) request arg = Fails errno" "errno \<noteq> EBUSY"
  shows "run_ioctl hw request arg d =
           Some (Inl (OSError errno),
                 d\<lparr>ioctl_calls := ioctl_calls d + n + 1, slept_ms := slept_ms d + 100 * n,
                   open_fds := fd # open_fds d\<rparr>)"
proof -
  let ?d0 = "d\<lparr>open_fds := fd # open_fds d\<rparr>"
  let ?dn = "?d0\<lparr>ioctl_calls := ioctl_calls ?d0 + n, slept_ms := slept_ms ?d0 + 100 * n\<rparr>"
  from assms(2) have "ioctl_loop hw request arg ?d0 = ioctl_loop hw request arg ?dn"
    by (intro ioctl_loop_busy) simp
  also from assms(3,4)
  have "\<dots> = Some (Inl (OSError errno), ?dn\<lparr>ioctl_calls := ioctl_calls ?dn + 1\<rparr>)"
    by (subst ioctl_loop.simps) simp
  finally show ?thesis
    by (simp add: run_ioctl_def assms(1))
qed

lemma run_ioctl_never_returns:
  assumes "open_device hw (ioctl_calls d) = Returns fd"
    and "\<forall>i. ioctl hw (ioctl_calls d + i) request arg = Fails EBUSY"
  shows "run_ioctl hw request arg d = None"
proof -
  from assms(2) have "ioctl_loop hw request arg (d\<lparr>open_fds := fd # open_fds d\<rparr>) = None"
    by (intro ioctl_loop_always_busy) simp
  then show ?thesis
    by (simp add: run_ioctl_def assms(1))
qed

lemma retry_policy_run_ioctl:
  "retry_policy hw request arg d (\<lambda>result. result) (run_ioctl hw request arg d)"
  unfolding retry_policy_def
proof (intro conjI allI impI)
  fix errno
  assume "open_device hw (ioctl_calls d) = Fails errno"
  then show "run_ioctl hw request arg d = Some (Inl (OSError errno), d)"
    by (rule run_ioctl_open_fails)
next
  fix fd n result
  assume "open_device hw (ioctl_calls d) = Returns fd
        \<and> (\<forall>i<n. ioctl hw (ioctl_calls d + i) request arg = Fails EBUSY)
        \<and> ioctl hw (ioctl_calls d + n) request arg = Returns result"
  then show "run_ioctl hw request arg d =
      Some (Inr result,
            d\<lparr>ioctl_calls := ioctl_calls d + n + 1, slept_ms := slept_ms d + 100 * n\<rparr>)"
    using run_ioctl_returns by blast
next
  fix fd n errno
  assume "open_device hw (ioctl_calls d) = Returns fd
        \<and> (\<forall>i<n. ioctl hw (ioctl_calls d + i) request arg = Fails EBUSY)
        \<and> ioctl hw (ioctl_calls d + n) request arg = Fails errno \<and> errno \<noteq> EBUSY"
  then show "run_ioctl hw request arg d =
      Some (Inl (OSError errno),
            d\<lparr>ioctl_calls := ioctl_calls d + n + 1, slept_ms := slept_ms d + 100 * n,
              open_fds := fd # open_fds d\<rparr>)"
    using run_ioctl_raises by blast
next
  fix fd
  assume "open_device hw (ioctl_calls d) = Returns fd
        \<and> (\<forall>i. ioctl hw (ioctl_calls d + i) request arg = Fails EBUSY)"
  then show "run_ioctl hw request arg d = None"
    using run_ioctl_never_returns by blast
qed

lemma retry_policy_no_value:
  assumes "retry_policy hw request arg d (\<lambda>result. result) outcome"
  shows "retry_policy hw request arg d (\<lambda>_. ())
           (case outcome of
              None \<Rightarrow> None
            | Some (Inl e, d') \<Rightarrow> Some (Inl e, d')
            | Some (Inr _, d') \<Rightarrow> Some (Inr (), d'))"
proof -
  let ?drop = "\<lambda>outcome :: ((exn + int) \<times> drive) option.
      case outcome of
        None \<Rightarrow> None
      | Some (Inl e, d') \<Rightarrow> Some (Inl e, d')
      | Some (Inr _, d') \<Rightarrow> Some (Inr (), d')"
  from assms have
    1: "\<And>errno. open_device hw (ioctl_calls d) = Fails errno \<Longrightarrow>
          outcome = Some (Inl (OSError errno), d)"
    and 2: "\<And>fd n result. open_device hw (ioctl_calls d) = Returns fd
          \<and> (\<forall>i<n. ioctl hw (ioctl_calls d + i) request arg = Fails EBUSY)
          \<and> ioctl hw (ioctl_calls d + n) request arg = Returns result \<Longrightarrow>
          outcome = Some (Inr result,
                          d\<lparr>ioctl_calls := ioctl_calls d + n + 1,
                            slept_ms := slept_ms d + 100 * n\<rparr>)"
    and 3: "\<And>fd n errno. open_device hw (ioctl_calls d) = Returns fd
          \<and> (\<forall>i<n. ioctl hw (ioctl_calls d + i) request arg = Fails EBUSY)
          \<and> ioctl hw (ioctl_calls d + n) request arg = Fails errno \<and> errno \<noteq> EBUSY \<Longrightarrow>
          outcome = Some (Inl (OSError errno),
                          d\<lparr>ioctl_calls := ioctl_calls d + n + 1,
                            slept_ms := slept_ms d + 100 * n,
                            open_fds := fd # open_fds d\<rparr>)"
    and 4: "\<And>fd. open_device hw (ioctl_calls d) = Returns fd
          \<and> (\<forall>i. ioctl hw (ioctl_calls d + i) request arg = Fails EBUSY) \<Longrightarrow>
          outcome = None"
    unfolding retry_policy_def by blast+
  show ?thesis
    unfolding retry_policy_def
  proof (intro conjI allI impI)
    fix errno
    assume "open_device hw (ioctl_calls d) = Fails errno"
    from 1 [OF this] show "?drop outcome = Some (Inl (OSError errno), d)" by simp
  next
    fix fd n result
    assume "open_device hw (ioctl_calls d) = Returns fd
        \<and> (\<forall>i<n. ioctl hw (ioctl_calls d + i) request arg = Fails EBUSY)
        \<and> ioctl hw (ioctl_calls d + n) request arg = Returns result"
    from 2 [OF this] show "?drop outcome =
        Some (Inr (),
              d\<lparr>ioctl_calls := ioctl_calls d + n + 1, slept_ms := slept_ms d + 100 * n\<rparr>)"
      by simp
  next
    fix fd n errno
    assume "open_device hw (ioctl_calls d) = Returns fd
        \<and> (\<forall>i<n. ioctl hw (ioctl_calls d + i) request arg = Fails EBUSY)
        \<and> ioctl hw (ioctl_calls d + n) request arg = Fails errno \<and> errno \<noteq> EBUSY"
    from 3 [OF this] show "?drop outcome =
        Some (Inl (OSError errno),
              d\<lparr>ioctl_calls := ioctl_calls d + n + 1, slept_ms := slept_ms d + 100 * n,
                open_fds := fd # open_fds d\<rparr>)"
      by simp
  next
    fix fd
    assume "open_device hw (ioctl_calls d) = Returns fd
        \<and> (\<forall>i. ioctl hw (ioctl_calls d + i) request arg = Fails EBUSY)"
    from 4 [OF this] show "?drop outcome = None" by simp
  qed
qed

text \<open>
  C8, as amended. Every hardware control call, the status query \<open>get_status\<close>, the
  door lock \<open>set_door_lock\<close>, \<open>close_tray\<close> and the eject of \<open>open_tray\<close> once the door
  is unlocked, follows the retry policy for its request. That is: when \<open>os.open\<close> of the
  device fails, with \<open>EBUSY\<close> or with any other \<open>errno\<close>, the error is raised to the
  caller at once and nothing is tried again. Once the device file is open, a control
  call that fails with \<open>EBUSY\<close> is repeated after a pause of 100 ms, any number of
  times, until it returns or fails with another \<open>errno\<close>; that error is raised to the
  caller of the operation, and on a device that stays busy the operation never gives
  up. \<open>open_tray\<close> ends as its unlocking of the door ends when that raises or never
  returns.
\<close>

theorem hardware_calls_retry_ioctl_not_open:
  "retry_policy hw CDROM_DRIVE_STATUS 0 d (\<lambda>status. status) (get_status hw d)
 \<and> retry_policy hw CDROM_LOCKDOOR (if locked then 1 else 0) d (\<lambda>_. ()) (set_door_lock hw locked d)
 \<and> retry_policy hw CDROMCLOSETRAY 0 d (\<lambda>_. ()) (close_tray hw d)
 \<and> (case set_door_lock hw False d of
       None \<Rightarrow> open_tray hw d = None
     | Some (Inl e, d') \<Rightarrow> open_tray hw d = Some (Inl e, d')
     | Some (Inr _, d') \<Rightarrow> retry_policy hw CDROMEJECT 0 d' (\<lambda>_. ()) (open_tray hw d))"
proof (intro conjI)
  show "retry_policy hw CDROM_DRIVE_STATUS 0 d (\<lambda>status. status) (get_status hw d)"
    by (simp add: get_status_def retry_policy_run_ioctl)
  show "retry_policy hw CDROM_LOCKDOOR (if locked then 1 else 0) d (\<lambda>_. ())
          (set_door_lock hw locked d)"
    unfolding set_door_lock_def by (rule retry_policy_no_value [OF retry_policy_run_ioctl])
  show "retry_policy hw CDROMCLOSETRAY 0 d (\<lambda>_. ()) (close_tray hw d)"
    unfolding close_tray_def by (rule retry_policy_no_value [OF retry_policy_run_ioctl])
  show "case set_door_lock hw False d of
       None \<Rightarrow> open_tray hw d = None
     | Some (Inl e, d') \<Rightarrow> open_tray hw d = Some (Inl e, d')
     | Some (Inr _, d') \<Rightarrow> retry_policy hw CDROMEJECT 0 d' (\<lambda>_. ()) (open_tray hw d)"
    using retry_policy_no_value [OF retry_policy_run_ioctl, of hw CDROMEJECT 0]
    by (auto simp: open_tray_def unlock_door_def split: option.splits sum.splits)
qed

theorem hardware_calls_retry_ioctl_not_open_witness:
  "get_status \<lparr>open_device = (\<lambda>_. Returns 3),
               ioctl = (\<lambda>k _ _. if k < 2 then Fails EBUSY else Returns 4)\<rparr>
     \<lparr>ioctl_calls = 0, slept_ms = 0, open_fds = []\<rparr>
     = Some (Inr 4, \<lparr>ioctl_calls = 3, slept_ms = 200, open_fds = []\<rparr>)
   \<and> close_tray \<lparr>open_device = (\<lambda>_. Returns 3),
                   ioctl = (\<lambda>k _ _. if k < 1 then Fails EBUSY else Fails 5)\<rparr>
     \<lparr>ioctl_calls = 0, slept_ms = 0, open_fds = []\<rparr>
     = Some (Inl (OSError 5), \<lparr>ioctl_calls = 2, slept_ms = 100, open_fds = [3]\<rparr>)
   \<and> set_door_lock \<lparr>open_device = (\<lambda>_. Returns 3), ioctl = (\<lambda>_ _ _. Fails EBUSY)\<rparr> True
     \<lparr>ioctl_calls = 0, slept_ms = 0, open_fds = []\<rparr>
     = None
   \<and> set_door_lock \<lparr>open_device = (\<lambda>_. Fails 13), ioctl = (\<lambda>_ _ _. Returns 0)\<rparr> True
     \<lparr>ioctl_calls = 0, slept_ms = 0, open_fds = []\<rparr>
     = Some (Inl (OSError 13), \<lparr>ioctl_calls = 0, slept_ms = 0, open_fds = []\<rparr>)
   \<and> open_tray \<lparr>open_device = (\<lambda>_. Returns 3),
                  ioctl = (\<lambda>k request _. if request = CDROM_LOCKDOOR then Returns 0
                                        else if k < 3 then Fails EBUSY else Returns 0)\<rparr>
     \<lparr>ioctl_calls = 0, slept_ms = 0, open_fds = []\<rparr>
     = Some (Inr (), \<lparr>ioctl_calls = 4, slept_ms = 200, open_fds = []\<rparr>)"
proof -
  let ?d = "\<lparr>ioctl_calls = 0, slept_ms = 0, open_fds = []\<rparr>"
  let ?hw1 = "\<lparr>open_device = (\<lambda>_. Returns 3),
               ioctl = (\<lambda>k _ _. if k < 2 then Fails EBUSY else Returns 4)\<rparr>"
  let ?hw2 = "\<lparr>open_device = (\<lambda>_. Returns 3),
               ioctl = (\<lambda>k _ _. if k < 1 then Fails EBUSY else Fails 5)\<rparr>"
  let ?hw3 = "\<lparr>open_device = (\<lambda>_. Returns 3), ioctl = (\<lambda>_ _ _. Fails EBUSY)\<rparr>"
  let ?hw4 = "\<lparr>open_device = (\<lambda>_. Fails 13), ioctl = (\<lambda>_ _ _. Returns 0)\<rparr>"
  let ?hw5 = "\<lparr>open_device = (\<lambda>_. Returns 3),
               ioctl = (\<lambda>k request _. if request = CDROM_LOCKDOOR then Returns 0
                                     else if k < 3 then Fails EBUSY else Returns 0)\<rparr>"
  have "retry_policy ?hw1 CDROM_DRIVE_STATUS 0 ?d (\<lambda>status. status) (get_status ?hw1 ?d)"
    using hardware_calls_retry_ioctl_not_open [of ?hw1 ?d] by blast
  then have
    "open_device ?hw1 (ioctl_calls ?d) = Returns 3
      \<and> (\<forall>i<2. ioctl ?hw1 (ioctl_calls ?d + i) CDROM_DRIVE_STATUS 0 = Fails EBUSY)
      \<and> ioctl ?hw1 (ioctl_calls ?d + 2) CDROM_DRIVE_STATUS 0 = Returns 4 \<longrightarrow>
     get_status ?hw1 ?d
       = Some (Inr 4, ?d\<lparr>ioctl_calls := ioctl_calls ?d + 2 + 1,
                          slept_ms := slept_ms ?d + 100 * 2\<rparr>)"
    unfolding retry_policy_def by blast
  then have status: "get_status ?hw1 ?d
      = Some (Inr 4, \<lparr>ioctl_calls = 3, slept_ms = 200, open_fds = []\<rparr>)"
    by simp
  have "retry_policy ?hw2 CDROMCLOSETRAY 0 ?d (\<lambda>_. ()) (close_tray ?hw2 ?d)"
    using hardware_calls_retry_ioctl_not_open [of ?hw2 ?d] by blast
  then have
    "open_device ?hw2 (ioctl_calls ?d) = Returns 3
      \<and> (\<forall>i<1. ioctl ?hw2 (ioctl_calls ?d + i) CDROMCLOSETRAY 0 = Fails EBUSY)
      \<and> ioctl ?hw2 (ioctl_calls ?d + 1) CDROMCLOSETRAY 0 = Fails 5 \<and> 5 \<noteq> EBUSY \<longrightarrow>
     close_tray ?hw2 ?d
       = Some (Inl (OSError 5), ?d\<lparr>ioctl_calls := ioctl_calls ?d + 1 + 1,
                                   slept_ms := slept_ms ?d + 100 * 1,
                                   open_fds := 3 # open_fds ?d\<rparr>)"
    unfolding retry_policy_def by blast
  then have close: "close_tray ?hw2 ?d
      = Some (Inl (OSError 5), \<lparr>ioctl_calls = 2, slept_ms = 100, open_fds = [3]\<rparr>)"
    by (simp add: EBUSY_def)
  have "retry_policy ?hw3 CDROM_LOCKDOOR (if True then 1 else 0) ?d (\<lambda>_. ())
          (set_door_lock ?hw3 True ?d)"
    using hardware_calls_retry_ioctl_not_open [of ?hw3 ?d True] by blast
  then have
    "open_device ?hw3 (ioctl_calls ?d) = Returns 3
      \<and> (\<forall>i. ioctl ?hw3 (ioctl_calls ?d + i) CDROM_LOCKDOOR (if True then 1 else 0) = Fails EBUSY)
     \<longrightarrow> set_door_lock ?hw3 True ?d = None"
    unfolding retry_policy_def by blast
  then have busy: "set_door_lock ?hw3 True ?d = None"
    by simp
  have "retry_policy ?hw4 CDROM_LOCKDOOR (if True then 1 else 0) ?d (\<lambda>_. ())
          (set_door_lock ?hw4 True ?d)"
    using hardware_calls_retry_ioctl_not_open [of ?hw4 ?d True] by blast
  then have
    "open_device ?hw4 (ioctl_calls ?d) = Fails 13 \<longrightarrow>
     set_door_lock ?hw4 True ?d = Some (Inl (OSError 13), ?d)"
    unfolding retry_policy_def by blast
  then have refused: "set_door_lock ?hw4 True ?d = Some (Inl (OSError 13), ?d)"
    by simp
  let ?d1 = "\<lparr>ioctl_calls = 1, slept_ms = 0, open_fds = []\<rparr>"
  have "retry_policy ?hw5 CDROM_LOCKDOOR (if False then 1 else 0) ?d (\<lambda>_. ())
          (set_door_lock ?hw5 False ?d)"
    using hardware_calls_retry_ioctl_not_open [of ?hw5 ?d False] by blast
  then have
    "open_device ?hw5 (ioctl_calls ?d) = Returns 3
      \<and> (\<forall>i<0. ioctl ?hw5 (ioctl_calls ?d + i) CDROM_LOCKDOOR (if False then 1 else 0)
                  = Fails EBUSY)
      \<and> ioctl ?hw5 (ioctl_calls ?d + 0) CDROM_LOCKDOOR (if False then 1 else 0) = Returns 0 \<longrightarrow>
     set_door_lock ?hw5 False ?d
       = Some (Inr (), ?d\<lparr>ioctl_calls := ioctl_calls ?d + 0 + 1,
                           slept_ms := slept_ms ?d + 100 * 0\<rparr>)"
    unfolding retry_policy_def by blast
  then have unlocked: "set_door_lock ?hw5 False ?d = Some (Inr (), ?d1)"
    by simp
  have "case set_door_lock ?hw5 False ?d of
       None \<Rightarrow> open_tray ?hw5 ?d = None
     | Some (Inl e, d') \<Rightarrow> open_tray ?hw5 ?d = Some (Inl e, d')
     | Some (Inr _, d') \<Rightarrow> retry_policy ?hw5 CDROMEJECT 0 d' (\<lambda>_. ()) (open_tray ?hw5 ?d)"
    using hardware_calls_retry_ioctl_not_open [of ?hw5 ?d] by blast
  with unlocked have "retry_policy ?hw5 CDROMEJECT 0 ?d1 (\<lambda>_. ()) (open_tray ?hw5 ?d)"
    by simp
  then have
    "open_device ?hw5 (ioctl_calls ?d1) = Returns 3
      \<and> (\<forall>i<2. ioctl ?hw5 (ioctl_calls ?d1 + i) CDROMEJECT 0 = Fails EBUSY)
      \<and> ioctl ?hw5 (ioctl_calls ?d1 + 2) CDROMEJECT 0 = Returns 0 \<longrightarrow>
     open_tray ?hw5 ?d
       = Some (Inr (), ?d1\<lparr>ioctl_calls := ioctl_calls ?d1 + 2 + 1,
                            slept_ms := slept_ms ?d1 + 100 * 2\<rparr>)"
    unfolding retry_policy_def by blast
  then have eject: "open_tray ?hw5 ?d
      = Some (Inr (), \<lparr>ioctl_calls = 4, slept_ms = 200, open_fds = []\<rparr>)"
    by (simp add: CDROMEJECT_def CDROM_LOCKDOOR_def)
  from status close busy refused eject show ?thesis
    by (intro conjI)
qed

text \<open>
  C8 as stated fails: a device that is busy when \<open>os.open\<close> is called makes the status
  query and the eject raise \<open>EBUSY\<close> to the caller at once; there is no pause and no
  second attempt.
\<close>

theorem busy_open_is_not_retried:
  "get_status \<lparr>open_device = (\<lambda>_. Fails EBUSY), ioctl = (\<lambda>_ _ _. Returns 4)\<rparr>
     \<lparr>ioctl_calls = 0, slept_ms = 0, open_fds = []\<rparr>
     = Some (Inl (OSError EBUSY), \<lparr>ioctl_calls = 0, slept_ms = 0, open_fds = []\<rparr>)
   \<and> open_tray \<lparr>open_device = (\<lambda>_. Fails EBUSY), ioctl = (\<lambda>_ _ _. Returns 0)\<rparr>
     \<lparr>ioctl_calls = 0, slept_ms = 0, open_fds = []\<rparr>
     = Some (Inl (OSError EBUSY), \<lparr>ioctl_calls = 0, slept_ms = 0, open_fds = []\<rparr>)"
  by (simp add: get_status_def open_tray_def unlock_door_def set_door_lock_def run_ioctl_def)

text \<open>
  C10. \<open>is_in_state\<close> called with the integer \<open>s\<close> does what it does when called with
  the set \<open>{s}\<close>: it makes that set of the integer before it samples the status.
\<close>

theorem is_in_state_int_is_singleton:
  "is_in_state hw (StateInt s) invert d = is_in_state hw (StateSet {s}) invert d"
  by (simp add: is_in_state_def)

section \<open>Properties of the publisher\<close>

lemmas worker_eval =
  send_loop_def get_message_def log_action_def attempt_def on_MqttError_def on_published_def

text \<open>
  C3 fails on the code. With \<open>retries = 2\<close>, a broker that refuses every attempt and the
  messages \<open>m1\<close>, \<open>m2\<close>, \<open>m3\<close> in the queue, \<open>m1\<close> is attempted twice and dropped, as
  the claim says; but \<open>remaining_retries\<close> is only set back after a \<open>publish\<close> that
  returned, so \<open>m2\<close> is attempted with 0 retries left instead of 2, and is dropped after
  its first failure, and so is every message after it.
\<close>

theorem send_loop_budget_not_reset_after_drop:
  "trace (send_loop 2 [False, False, False, False] [''m1'', ''m2'', ''m3''])
     = [Attempt ''m1'' 2, Slept, Attempt ''m1'' 1, Dropped ''m1'', Slept,
        Attempt ''m2'' 0, Dropped ''m2'', Slept, Attempt ''m3'' (- 1)]"
  by (simp add: worker_eval)

end
